theory Spec2Isabelle
  imports Complex_Main "HOL-Library.AList"
begin

section \<open>Paint products search: the catalog loader and the search filter of app.py\<close>

text \<open>
  The program is one Python module. \<open>load_paint_catalogs\<close> reads three vendor
  workbooks into lists of product rows; the module body then runs a fuzzy search over
  those rows for the query typed into the page.

  What the module takes from Python, pandas and fuzzywuzzy is modelled as follows.
  \<^item> A Python \<open>str\<close> is a \<open>string\<close>: the list of its code points, each below 256, so
    that the pound sign of the price format is the single character \<open>0xA3\<close>.
  \<^item> A cell of a DataFrame read with \<open>header=None\<close> is missing (the float \<open>NaN\<close>), a
    \<open>bool\<close>, an \<open>int\<close>, a finite \<open>float\<close> (with its exact rational value), a \<open>str\<close>, or
    a date or time, which is held by the text that \<open>str\<close> prints for it.
  \<^item> The value of a Python variable that may be \<open>None\<close> is a \<open>cell option\<close>.
  \<^item> Three library functions are parameters, collected in the record \<open>env\<close>:
    \<open>float\<close> on a \<open>str\<close>, \<open>str\<close> on a \<open>float\<close>, and \<open>fuzz.token_set_ratio\<close>.
\<close>

subsection \<open>Strings\<close>

text \<open>The characters \<open>str.isspace\<close> accepts, among the code points below 256.\<close>

definition isspace :: "char \<Rightarrow> bool" where
  "isspace c \<longleftrightarrow>
     c \<in> set [CHR 0x09, CHR 0x0A, CHR 0x0B, CHR 0x0C, CHR 0x0D, CHR 0x1C, CHR 0x1D,
              CHR 0x1E, CHR 0x1F, CHR 0x20, CHR 0x85, CHR 0xA0]"

text \<open>\<open>s.strip()\<close>: leading and trailing whitespace removed.\<close>

definition strip :: "string \<Rightarrow> string" where
  "strip s = rev (dropWhile isspace (rev (dropWhile isspace s)))"

text \<open>
  \<open>s.split()\<close> with no argument: the maximal runs of non-whitespace characters, in
  order. The first argument is the word being read.
\<close>

fun split_from :: "string \<Rightarrow> string \<Rightarrow> string list" where
  "split_from w [] = (if w = [] then [] else [w])"
| "split_from w (c # cs) =
     (if isspace c then (if w = [] then [] else [w]) @ split_from [] cs
      else split_from (w @ [c]) cs)"

definition split :: "string \<Rightarrow> string list" where
  "split s = split_from [] s"

text \<open>
  \<open>s.lower()\<close> on code points below 256: the ASCII capitals and the capitals of
  \<open>0xC0..0xDE\<close> (the multiplication sign \<open>0xD7\<close> apart) move up by 32.
\<close>

definition lower_char :: "char \<Rightarrow> char" where
  "lower_char c =
     (let n = (of_char c :: nat)
      in if (65 \<le> n \<and> n \<le> 90) \<or> (192 \<le> n \<and> n \<le> 222 \<and> n \<noteq> 215)
         then char_of (n + 32) else c)"

definition lower :: "string \<Rightarrow> string" where
  "lower s = map lower_char s"

text \<open>\<open>sep.join(parts)\<close>.\<close>

fun join :: "string \<Rightarrow> string list \<Rightarrow> string" where
  "join sep [] = []"
| "join sep [p] = p"
| "join sep (p # q # ps) = p @ sep @ join sep (q # ps)"

subsection \<open>Numbers as text\<close>

definition digit_char :: "nat \<Rightarrow> char" where
  "digit_char d = ''0123456789'' ! d"

text \<open>
  The decimal digits of an \<open>int\<close> that is not negative. (The numbers are of type \<open>int\<close>
  throughout: a price may have many digits.)
\<close>

function dec_digits :: "int \<Rightarrow> string" where
  "dec_digits n =
     (if n < 10 then [digit_char (nat n)]
      else dec_digits (n div 10) @ [digit_char (nat (n mod 10))])"
  by pat_completeness auto
termination
  by (relation "measure nat") auto

declare dec_digits.simps [simp del]

text \<open>\<open>str(i)\<close> for a Python \<open>int\<close>.\<close>

definition str_int :: "int \<Rightarrow> string" where
  "str_int i = (if i < 0 then ''-'' else []) @ dec_digits \<bar>i\<bar>"

text \<open>
  A Python \<open>float\<close>: a finite value (every finite double is a rational), an infinity or
  a NaN. The sign of a zero is not kept.
\<close>

datatype pyfloat = Finite rat | PosInf | NegInf | NotANumber

text \<open>Rounding a non-negative rational to an integer, ties to the even neighbour.\<close>

definition round_half_even :: "rat \<Rightarrow> int" where
  "round_half_even r =
     (let f = \<lfloor>r\<rfloor>; d = r - of_int f
      in if d < 1 / 2 then f
         else if 1 / 2 < d then f + 1
         else if even f then f else f + 1)"

text \<open>
  \<open>f"{x:.2f}"\<close>: CPython prints the decimal with two places nearest to the exact value
  of the double, ties to even, and keeps the sign of a negative value that rounds to zero.
\<close>

fun format_2f :: "pyfloat \<Rightarrow> string" where
  "format_2f (Finite r) =
     (let q = round_half_even (\<bar>r\<bar> * 100)
      in (if r < 0 then ''-'' else []) @ dec_digits (q div 100) @ ''.''
           @ [digit_char (nat (q mod 100 div 10)), digit_char (nat (q mod 10))])"
| "format_2f PosInf = ''inf''"
| "format_2f NegInf = ''-inf''"
| "format_2f NotANumber = ''nan''"

subsection \<open>Cells, values and the library functions taken as parameters\<close>

datatype cell = NaN | BoolV bool | IntV int | FloatV rat | Text string | DateV string

record env =
  float_of_str :: "string \<Rightarrow> pyfloat option"
  str_of_float :: "rat \<Rightarrow> string"
  token_set_ratio :: "string \<Rightarrow> string \<Rightarrow> int"

text \<open>
  \<open>float_of_str\<close> is \<open>float(s)\<close> for a \<open>str\<close>, with \<open>None\<close> where Python raises
  \<open>ValueError\<close>; \<open>str_of_float\<close> is \<open>str(x)\<close> for a finite \<open>float\<close>;
  \<open>token_set_ratio\<close> is the score of fuzzywuzzy.

  A Python exception that the loader can meet. \<open>ReadError\<close> stands for whatever
  \<open>pd.ExcelFile\<close> or \<open>pd.read_excel\<close> raise, with its message.
\<close>

datatype error = IndexError | OverflowError | ReadError string

text \<open>\<open>pd.notna(v)\<close>, the truth value of \<open>v\<close> and \<open>str(v)\<close>.\<close>

fun notna :: "cell option \<Rightarrow> bool" where
  "notna None = False"
| "notna (Some NaN) = False"
| "notna (Some v) = True"

fun truthy :: "cell option \<Rightarrow> bool" where
  "truthy None = False"
| "truthy (Some NaN) = True"
| "truthy (Some (BoolV b)) = b"
| "truthy (Some (IntV i)) = (i \<noteq> 0)"
| "truthy (Some (FloatV r)) = (r \<noteq> 0)"
| "truthy (Some (Text s)) = (s \<noteq> [])"
| "truthy (Some (DateV t)) = True"

fun py_str :: "env \<Rightarrow> cell option \<Rightarrow> string" where
  "py_str e None = ''None''"
| "py_str e (Some NaN) = ''nan''"
| "py_str e (Some (BoolV b)) = (if b then ''True'' else ''False'')"
| "py_str e (Some (IntV i)) = str_int i"
| "py_str e (Some (FloatV r)) = str_of_float e r"
| "py_str e (Some (Text s)) = s"
| "py_str e (Some (DateV t)) = t"

text \<open>
  \<open>row.iloc[i]\<close>: a negative index counts from the end, and an index outside the row
  raises \<open>IndexError\<close>.
\<close>

definition iloc :: "cell list \<Rightarrow> int \<Rightarrow> error + cell" where
  "iloc row i =
     (if 0 \<le> i \<and> i < int (length row) then Inr (row ! nat i)
      else if i < 0 \<and> - int (length row) \<le> i then Inr (row ! nat (int (length row) + i))
      else Inl IndexError)"

subsection \<open>Configuration, workbooks and the loader's output\<close>

record vendor_config =
  filename :: string
  code_col :: int
  desc_col :: int
  extra_cols :: "int list"
  price_col :: int

text \<open>
  The dictionary \<open>catalog_config\<close>, in its order. \<open>extra_cols\<close> is what
  \<open>config.get('extra_cols', [])\<close> returns.
\<close>

definition catalog_config :: "(string \<times> vendor_config) list" where
  "catalog_config =
     [(''Akzo'', \<lparr>filename = ''akzo.xlsx'', code_col = 0, desc_col = 4,
                 extra_cols = [], price_col = 40\<rparr>),
      (''Crown'', \<lparr>filename = ''crown.xlsx'', code_col = 0, desc_col = 4,
                  extra_cols = [6, 7], price_col = 17\<rparr>),
      (''PPG'', \<lparr>filename = ''ppg.xlsx'', code_col = 0, desc_col = 4,
                extra_cols = [], price_col = 15\<rparr>)]"

text \<open>
  A DataFrame: \<open>width\<close> is \<open>df.shape[1]\<close>, \<open>rows\<close> are the rows \<open>df.iterrows()\<close>
  yields. In pandas every row has \<open>width\<close> cells.
\<close>

record dataframe =
  width :: nat
  rows :: "cell list list"

definition wf_dataframe :: "dataframe \<Rightarrow> bool" where
  "wf_dataframe df \<longleftrightarrow> list_all (\<lambda>row. length row = width df) (rows df)"

text \<open>
  A workbook is the list of its sheets: the name, and what \<open>pd.read_excel\<close> gives for
  that sheet. A source file is absent, or \<open>pd.ExcelFile\<close> raises on it, or it opens.
\<close>

type_synonym workbook = "(string \<times> (string + dataframe)) list"

datatype source = Absent | Corrupt string | Workbook workbook

record product =
  Code :: cell
  Product :: string
  Price :: string
  Catalog :: string

record catalog =
  data :: "product list"
  sheet :: string

record loaded =
  catalogs :: "(string \<times> catalog) list"
  warnings :: "(string \<times> error) list"

subsection \<open>The loader: one row\<close>

text \<open>\<open>row.iloc[c] if c < len(row) else None\<close>.\<close>

definition get_col :: "cell list \<Rightarrow> int \<Rightarrow> error + cell option" where
  "get_col row c =
     (if c < int (length row)
      then (case iloc row c of Inl err \<Rightarrow> Inl err | Inr v \<Rightarrow> Inr (Some v))
      else Inr None)"

text \<open>The list \<open>extra_parts\<close> that the inner loop over \<open>extra_cols\<close> collects.\<close>

fun extra_parts :: "env \<Rightarrow> cell list \<Rightarrow> int list \<Rightarrow> error + string list" where
  "extra_parts e row [] = Inr []"
| "extra_parts e row (c # cs) =
     (if c < int (length row)
      then (case iloc row c of
              Inl err \<Rightarrow> Inl err
            | Inr extra \<Rightarrow>
                (case extra_parts e row cs of
                   Inl err \<Rightarrow> Inl err
                 | Inr parts \<Rightarrow>
                     Inr (if notna (Some extra) \<and> strip (py_str e (Some extra)) \<noteq> []
                          then strip (py_str e (Some extra)) # parts else parts)))
      else extra_parts e row cs)"

text \<open>
  The description after the extra columns are added:
  \<open>f"{desc} {' '.join(extra_parts)}" if desc else ' '.join(extra_parts)\<close>
  when there are extra parts, the description as read otherwise.
\<close>

definition with_extras :: "env \<Rightarrow> cell option \<Rightarrow> string list \<Rightarrow> cell option" where
  "with_extras e desc parts =
     (if parts \<noteq> []
      then Some (Text (if truthy desc then py_str e desc @ '' '' @ join '' '' parts
                       else join '' '' parts))
      else desc)"

definition final_desc ::
  "env \<Rightarrow> vendor_config \<Rightarrow> cell list \<Rightarrow> cell option \<Rightarrow> error + cell option" where
  "final_desc e cfg row desc =
     (if extra_cols cfg \<noteq> []
      then (case extra_parts e row (extra_cols cfg) of
              Inl err \<Rightarrow> Inl err
            | Inr parts \<Rightarrow> Inr (with_extras e desc parts))
      else Inr desc)"

text \<open>The test \<open>desc and pd.notna(desc) and str(desc).strip()\<close>.\<close>

definition keep_desc :: "env \<Rightarrow> cell option \<Rightarrow> bool" where
  "keep_desc e desc \<longleftrightarrow> truthy desc \<and> notna desc \<and> strip (py_str e desc) \<noteq> []"

text \<open>\<open>n.bit_length()\<close> for an \<open>int\<close> that is not negative.\<close>

function bit_length :: "int \<Rightarrow> nat" where
  "bit_length n = (if n \<le> 0 then 0 else Suc (bit_length (n div 2)))"
  by pat_completeness auto
termination
  by (relation "measure nat") auto

declare bit_length.simps [simp del]

text \<open>
  \<open>float(i)\<close> for a Python \<open>int\<close>: the double nearest to \<open>i\<close>, ties to the even
  mantissa. An \<open>int\<close> of at most 53 bits converts exactly; a longer one keeps its 53
  leading bits, rounded. \<open>None\<close> is \<open>OverflowError\<close>: the rounded value does not fit a
  double.
\<close>

definition float_of_int :: "int \<Rightarrow> rat option" where
  "float_of_int i =
     (let n = \<bar>i\<bar>; k = bit_length n
      in if k \<le> 53 then Some (of_int i)
         else (let sh = k - 53; q = n div 2 ^ sh; r = n mod 2 ^ sh; h = 2 ^ (sh - 1);
                   m = (if h < r \<or> (r = h \<and> odd q) then q + 1 else q) * 2 ^ sh
               in if 2 ^ 1024 \<le> m then None
                  else Some (of_int (if i < 0 then - m else m))))"

text \<open>
  \<open>float(price)\<close>. \<open>Inr None\<close> is a \<open>ValueError\<close> or a \<open>TypeError\<close>, which the
  \<open>except\<close> clause around the call catches; \<open>Inl OverflowError\<close> is not caught there
  and leaves the loop over the rows.
\<close>

fun py_float :: "env \<Rightarrow> cell \<Rightarrow> error + pyfloat option" where
  "py_float e NaN = Inr (Some NotANumber)"
| "py_float e (BoolV b) = Inr (Some (Finite (if b then 1 else 0)))"
| "py_float e (IntV i) =
     (case float_of_int i of
        None \<Rightarrow> Inl OverflowError
      | Some r \<Rightarrow> Inr (Some (Finite r)))"
| "py_float e (FloatV r) = Inr (Some (Finite r))"
| "py_float e (Text s) = Inr (float_of_str e s)"
| "py_float e (DateV t) = Inr None"

definition pound :: string where
  "pound = [CHR 0xA3]"

definition format_price :: "env \<Rightarrow> cell option \<Rightarrow> error + string" where
  "format_price e price =
     (case price of
        None \<Rightarrow> Inr ''N/A''
      | Some v \<Rightarrow>
          (if notna (Some v) \<and> v \<noteq> Text ''N/A''
           then (case py_float e v of
                   Inl err \<Rightarrow> Inl err
                 | Inr (Some x) \<Rightarrow> Inr (pound @ format_2f x)
                 | Inr None \<Rightarrow> Inr (py_str e (Some v)))
           else Inr ''N/A''))"

text \<open>\<open>code if pd.notna(code) else 'N/A'\<close>.\<close>

definition code_value :: "cell option \<Rightarrow> cell" where
  "code_value code =
     (case code of
        None \<Rightarrow> Text ''N/A''
      | Some v \<Rightarrow> if notna (Some v) then v else Text ''N/A'')"

text \<open>
  The three reads of lines 87 to 89 of app.py, with the price column already clamped
  by the caller.
\<close>

definition read_cells ::
  "vendor_config \<Rightarrow> int \<Rightarrow> cell list \<Rightarrow> error + (cell option \<times> cell option \<times> cell option)" where
  "read_cells cfg pc row =
     (case get_col row (code_col cfg) of
        Inl err \<Rightarrow> Inl err
      | Inr code \<Rightarrow>
          (case get_col row (desc_col cfg) of
             Inl err \<Rightarrow> Inl err
           | Inr desc \<Rightarrow>
               (case get_col row pc of
                  Inl err \<Rightarrow> Inl err
                | Inr price \<Rightarrow> Inr (code, desc, price))))"

text \<open>
  One turn of the loop over the rows: the product record of the row, \<open>None\<close> when the
  row is skipped, or the exception raised.
\<close>

definition product_of_row ::
  "env \<Rightarrow> string \<Rightarrow> vendor_config \<Rightarrow> int \<Rightarrow> cell list \<Rightarrow> error + product option" where
  "product_of_row e name cfg pc row =
     (case read_cells cfg pc row of
        Inl err \<Rightarrow> Inl err
      | Inr (code, desc0, price) \<Rightarrow>
          (case final_desc e cfg row desc0 of
             Inl err \<Rightarrow> Inl err
           | Inr desc \<Rightarrow>
               (if keep_desc e desc
                then (case format_price e price of
                        Inl err \<Rightarrow> Inl err
                      | Inr formatted_price \<Rightarrow>
                          Inr (Some \<lparr>Code = code_value code,
                                      Product = strip (py_str e desc),
                                      Price = formatted_price, Catalog = name\<rparr>))
                else Inr None)))"

fun build_products ::
  "env \<Rightarrow> string \<Rightarrow> vendor_config \<Rightarrow> int \<Rightarrow> cell list list \<Rightarrow> error + product list" where
  "build_products e name cfg pc [] = Inr []"
| "build_products e name cfg pc (row # rest) =
     (case product_of_row e name cfg pc row of
        Inl err \<Rightarrow> Inl err
      | Inr p \<Rightarrow>
          (case build_products e name cfg pc rest of
             Inl err \<Rightarrow> Inl err
           | Inr ps \<Rightarrow> Inr (case p of None \<Rightarrow> ps | Some x \<Rightarrow> x # ps)))"

subsection \<open>The loader: one vendor, all vendors\<close>

text \<open>
  The loop over \<open>excel_file.sheet_names\<close>: each sheet is read in turn until one has more
  columns than \<open>desc_col\<close>. A sheet that fails to read raises.
\<close>

fun first_wide_sheet :: "int \<Rightarrow> workbook \<Rightarrow> error + (string \<times> dataframe) option" where
  "first_wide_sheet dc [] = Inr None"
| "first_wide_sheet dc ((sname, Inl msg) # rest) = Inl (ReadError msg)"
| "first_wide_sheet dc ((sname, Inr df) # rest) =
     (if dc < int (width df) then Inr (Some (sname, df)) else first_wide_sheet dc rest)"

definition select_sheet ::
  "string \<Rightarrow> vendor_config \<Rightarrow> workbook \<Rightarrow> error + (string \<times> dataframe) option" where
  "select_sheet name cfg wb =
     (if name = ''Crown'' \<and> 1 < length wb
      then (case snd (wb ! 1) of
              Inl msg \<Rightarrow> Inl (ReadError msg)
            | Inr df \<Rightarrow> Inr (Some (fst (wb ! 1), df)))
      else first_wide_sheet (desc_col cfg) wb)"

text \<open>
  \<open>pd.DataFrame(products)\<close>: the rows as the frame holds them. The columns of
  descriptions, prices and vendor names hold \<open>str\<close> values and keep them. The column of
  codes is converted to doubles when every code is an \<open>int\<close> or a \<open>float\<close>, at least
  one is a \<open>float\<close>, and the \<open>int\<close> codes fit 64 bits (all of them signed, or all of
  them unsigned); any other column of codes keeps its values.
\<close>

definition float_codes :: "cell list \<Rightarrow> bool" where
  "float_codes cs \<longleftrightarrow>
     list_all (\<lambda>c. case c of
                      IntV i \<Rightarrow> - (2 ^ 63) \<le> i \<and> i < 2 ^ 64
                    | FloatV r \<Rightarrow> True
                    | _ \<Rightarrow> False) cs
     \<and> list_ex (\<lambda>c. case c of FloatV r \<Rightarrow> True | _ \<Rightarrow> False) cs
     \<and> \<not> (list_ex (\<lambda>c. case c of IntV i \<Rightarrow> i < 0 | _ \<Rightarrow> False) cs
          \<and> list_ex (\<lambda>c. case c of IntV i \<Rightarrow> 2 ^ 63 \<le> i | _ \<Rightarrow> False) cs)"

definition frame_code :: "bool \<Rightarrow> cell \<Rightarrow> cell" where
  "frame_code as_float c =
     (case c of
        IntV i \<Rightarrow>
          (if as_float then (case float_of_int i of Some r \<Rightarrow> FloatV r | None \<Rightarrow> c)
           else c)
      | _ \<Rightarrow> c)"

definition dataframe_of :: "product list \<Rightarrow> product list" where
  "dataframe_of products =
     map (\<lambda>p. p\<lparr>Code := frame_code (float_codes (map Code products)) (Code p)\<rparr>) products"

text \<open>
  The body of the \<open>try\<close> once the workbook is open: the catalog to store under the
  vendor's name, \<open>None\<close> when nothing is stored, or the exception raised.
\<close>

definition workbook_catalog ::
  "env \<Rightarrow> string \<Rightarrow> vendor_config \<Rightarrow> workbook \<Rightarrow> error + catalog option" where
  "workbook_catalog e name cfg wb =
     (case select_sheet name cfg wb of
        Inl err \<Rightarrow> Inl err
      | Inr None \<Rightarrow> Inr None
      | Inr (Some (sname, df)) \<Rightarrow>
          (if sname \<noteq> []
           then (case build_products e name cfg
                        (min (price_col cfg) (int (width df) - 1)) (rows df) of
                   Inl err \<Rightarrow> Inl err
                 | Inr ps \<Rightarrow>
                     (if ps \<noteq> []
                      then Inr (Some \<lparr>data = dataframe_of ps, sheet = sname\<rparr>)
                      else Inr None))
           else Inr None))"

definition load_vendor ::
  "env \<Rightarrow> string \<Rightarrow> vendor_config \<Rightarrow> source \<Rightarrow> error + catalog option" where
  "load_vendor e name cfg src =
     (case src of
        Absent \<Rightarrow> Inr None
      | Corrupt msg \<Rightarrow> Inl (ReadError msg)
      | Workbook wb \<Rightarrow> workbook_catalog e name cfg wb)"

text \<open>
  The loop over the configuration. \<open>fs\<close> gives what is found at each file name of the
  data directory. An exception becomes a warning \<open>(vendor, exception)\<close>, for
  \<open>st.warning(f"Could not load {catalog_name} catalog: {e}")\<close>, and the loop goes on.
\<close>

fun load_loop ::
  "env \<Rightarrow> (string \<Rightarrow> source) \<Rightarrow> (string \<times> vendor_config) list \<Rightarrow> loaded \<Rightarrow> loaded" where
  "load_loop e fs [] st = st"
| "load_loop e fs ((name, cfg) # rest) st =
     load_loop e fs rest
       (case load_vendor e name cfg (fs (filename cfg)) of
          Inl err \<Rightarrow> st\<lparr>warnings := warnings st @ [(name, err)]\<rparr>
        | Inr None \<Rightarrow> st
        | Inr (Some c) \<Rightarrow> st\<lparr>catalogs := AList.update name c (catalogs st)\<rparr>)"

definition load_paint_catalogs :: "env \<Rightarrow> (string \<Rightarrow> source) \<Rightarrow> loaded" where
  "load_paint_catalogs e fs = load_loop e fs catalog_config \<lparr>catalogs = [], warnings = []\<rparr>"

subsection \<open>The search\<close>

text \<open>Python's \<open>min\<close> over a non-empty iterable: the running minimum, from the first item.\<close>

fun running_min :: "int \<Rightarrow> int list \<Rightarrow> int" where
  "running_min m [] = m"
| "running_min m (x # xs) = running_min (min m x) xs"

definition term_score :: "env \<Rightarrow> product \<Rightarrow> string \<Rightarrow> int" where
  "term_score e row t =
     max (token_set_ratio e t (lower (py_str e (Some (Code row)))))
         (token_set_ratio e t (lower (Product row)))"

text \<open>\<open>min(... for term in search_terms) if search_terms else 0\<close>.\<close>

definition match_score :: "env \<Rightarrow> string list \<Rightarrow> product \<Rightarrow> int" where
  "match_score e search_terms row =
     (case map (term_score e row) search_terms of
        [] \<Rightarrow> 0
      | s # ss \<Rightarrow> running_min s ss)"

definition matching :: "env \<Rightarrow> string list \<Rightarrow> catalog \<Rightarrow> product list" where
  "matching e search_terms c = filter (\<lambda>row. 50 \<le> match_score e search_terms row) (data c)"

definition all_results :: "env \<Rightarrow> (string \<times> catalog) list \<Rightarrow> string list \<Rightarrow> product list" where
  "all_results e cats search_terms = concat (map (\<lambda>(name, c). matching e search_terms c) cats)"

definition filtered_results :: "string \<Rightarrow> product list \<Rightarrow> product list" where
  "filtered_results catalog_filter rs =
     (if catalog_filter = ''All'' then rs else filter (\<lambda>row. Catalog row = catalog_filter) rs)"

text \<open>
  What the page shows below the title: the error of an empty catalog mapping, nothing
  yet, the prompt for a term, the warning that nothing matched the query, or the count
  line with the table.
\<close>

datatype page =
    NoCatalogsError
  | Idle
  | EnterTermInfo
  | NoProductsWarning string
  | Found nat string "product list"

definition app :: "env \<Rightarrow> (string \<times> catalog) list \<Rightarrow> string \<Rightarrow> bool \<Rightarrow> string \<Rightarrow> page" where
  "app e cats search_query search_button catalog_filter =
     (if cats = [] then NoCatalogsError
      else if search_query \<noteq> [] \<or> search_button
      then (let query_lower = (if search_query \<noteq> [] then lower search_query else [])
            in if query_lower = [] then EnterTermInfo
               else (let rs = all_results e cats (split query_lower)
                     in if 0 < length rs
                        then Found (length (filtered_results catalog_filter rs)) catalog_filter
                               (filtered_results catalog_filter rs)
                        else NoProductsWarning search_query))
      else Idle)"

subsection \<open>An environment and a data directory for the examples\<close>

text \<open>
  The examples below need the three library functions at a few arguments. These
  stand-ins agree with CPython and fuzzywuzzy where the examples use them:
  \<^item> \<open>example_float_of_str\<close> reads a sign, digits and an optional fraction, and rejects
    every other text (a text with a letter in it such as \<open>POA\<close> is rejected by
    \<open>float\<close> too, unless it spells an exponent, an infinity or a NaN);
  \<^item> \<open>example_str_of_float\<close> writes the exact decimal expansion, which is what \<open>str\<close>
    prints for a double with a short one such as \<open>12.5\<close>;
  \<^item> \<open>example_ratio\<close> is 100 when the term is one of the words of the field, as
    \<open>token_set_ratio\<close> is, and 0 otherwise, where the library gives some score between
    0 and 100.
\<close>

definition is_digit :: "char \<Rightarrow> bool" where
  "is_digit c \<longleftrightarrow> c \<in> set ''0123456789''"

definition digits_value :: "string \<Rightarrow> int" where
  "digits_value ds = foldl (\<lambda>n c. 10 * n + (of_char c - 48)) 0 ds"

definition example_float_of_str :: "string \<Rightarrow> pyfloat option" where
  "example_float_of_str s =
     (let t = strip s;
          neg = (take 1 t = ''-'');
          u = (if take 1 t = ''-'' \<or> take 1 t = ''+'' then drop 1 t else t);
          ip = takeWhile is_digit u;
          r = dropWhile is_digit u;
          fp = (if take 1 r = ''.'' then drop 1 r else r)
      in if (r = [] \<or> take 1 r = ''.'') \<and> list_all is_digit fp \<and> (ip \<noteq> [] \<or> fp \<noteq> [])
         then Some (Finite ((if neg then - 1 else 1)
                * (of_int (digits_value (ip @ fp)) / 10 ^ length fp)))
         else None)"

fun frac_digits :: "nat \<Rightarrow> rat \<Rightarrow> string" where
  "frac_digits 0 r = []"
| "frac_digits (Suc n) r =
     (if r = 0 then []
      else digit_char (nat \<lfloor>r * 10\<rfloor>) # frac_digits n (r * 10 - of_int \<lfloor>r * 10\<rfloor>))"

definition example_str_of_float :: "rat \<Rightarrow> string" where
  "example_str_of_float r =
     (let a = \<bar>r\<bar>; f = frac_digits 17 (a - of_int \<lfloor>a\<rfloor>)
      in (if r < 0 then ''-'' else []) @ dec_digits \<lfloor>a\<rfloor> @ ''.''
           @ (if f = [] then ''0'' else f))"

definition example_ratio :: "string \<Rightarrow> string \<Rightarrow> int" where
  "example_ratio t s = (if t \<in> set (split s) then 100 else 0)"

definition example_env :: env where
  "example_env = \<lparr>float_of_str = example_float_of_str, str_of_float = example_str_of_float,
                   token_set_ratio = example_ratio\<rparr>"

text \<open>
  A sheet of six columns for Akzo: a priced row, a row priced \<open>POA\<close>, a row with a blank
  description and a row with a numeric code and no price.
\<close>

definition example_sheet :: dataframe where
  "example_sheet =
     \<lparr>width = 6,
      rows = [[Text ''A100'', NaN, NaN, NaN, Text ''Blue Matte Emulsion'', FloatV (25 / 2)],
              [Text ''A200'', NaN, NaN, NaN, Text ''Blue Gloss '', Text ''POA''],
              [Text ''A300'', NaN, NaN, NaN, Text ''   '', FloatV 3],
              [IntV 400, NaN, NaN, NaN, Text ''White Primer'', NaN]]\<rparr>"

text \<open>
  A data directory: Akzo's workbook has that one sheet, Crown's file is not there, and
  PPG's file does not open.
\<close>

definition example_fs :: "string \<Rightarrow> source" where
  "example_fs f =
     (if f = ''akzo.xlsx'' then Workbook [(''Sheet1'', Inr example_sheet)]
      else if f = ''ppg.xlsx'' then Corrupt ''File is not a zip file''
      else Absent)"

definition example_products :: "product list" where
  "example_products =
     [\<lparr>Code = Text ''A100'', Product = ''Blue Matte Emulsion'', Price = pound @ ''12.50'',
       Catalog = ''Akzo''\<rparr>,
      \<lparr>Code = Text ''A200'', Product = ''Blue Gloss'', Price = ''POA'', Catalog = ''Akzo''\<rparr>,
      \<lparr>Code = IntV 400, Product = ''White Primer'', Price = ''N/A'', Catalog = ''Akzo''\<rparr>]"

definition example_catalogs :: "(string \<times> catalog) list" where
  "example_catalogs = [(''Akzo'', \<lparr>data = example_products, sheet = ''Sheet1''\<rparr>)]"

text \<open>
  A second data directory: each of the three workbooks opens and has one sheet of six
  columns, whose only row has no description.
\<close>

definition example_blank_sheet :: dataframe where
  "example_blank_sheet = \<lparr>width = 6, rows = [[Text ''X1'', NaN, NaN, NaN, NaN, FloatV 1]]\<rparr>"

definition example_blank_fs :: "string \<Rightarrow> source" where
  "example_blank_fs f = Workbook [(''Sheet1'', Inr example_blank_sheet)]"

text \<open>
  A workbook for Crown with two sheets, the second of three columns only.
\<close>

definition example_narrow_sheet :: dataframe where
  "example_narrow_sheet = \<lparr>width = 3, rows = [[Text ''C1'', Text ''Gloss'', FloatV 5]]\<rparr>"

definition example_crown_workbook :: workbook where
  "example_crown_workbook =
     [(''Cover'', Inr \<lparr>width = 1, rows = [[Text ''Crown price list'']]\<rparr>),
      (''Prices'', Inr example_narrow_sheet)]"

subsection \<open>Three notions in the words of the specification\<close>

text \<open>A description that is missing, empty or only whitespace.\<close>

definition blank_desc :: "env \<Rightarrow> cell option \<Rightarrow> bool" where
  "blank_desc e desc \<longleftrightarrow> \<not> notna desc \<or> list_all isspace (py_str e desc)"

text \<open>
  The text \<open>s\<close> is the decimal with two places nearest to the number \<open>x\<close>, ties to the
  even last digit: a minus sign if \<open>x\<close> is negative, the digits of the whole part with
  no leading zero, a point, and two digits.
\<close>

definition two_place_text :: "rat \<Rightarrow> string \<Rightarrow> bool" where
  "two_place_text x s \<longleftrightarrow>
     (let body = (if x < 0 then drop 1 s else s);
          ds = takeWhile is_digit body;
          fs = drop (Suc (length ds)) body;
          q = digits_value (ds @ fs)
      in (x < 0 \<longrightarrow> take 1 s = ''-'')
         \<and> ds \<noteq> [] \<and> (length ds = 1 \<or> take 1 ds \<noteq> ''0'')
         \<and> take 1 (drop (length ds) body) = ''.''
         \<and> length fs = 2 \<and> list_all is_digit fs
         \<and> \<bar>of_int q / 100 - \<bar>x\<bar>\<bar> \<le> 1 / 200
         \<and> (\<bar>of_int q / 100 - \<bar>x\<bar>\<bar> = 1 / 200 \<longrightarrow> even q))"

text \<open>A column index clamped to the width of the sheet.\<close>

definition clamped_index :: "dataframe \<Rightarrow> int \<Rightarrow> int" where
  "clamped_index df c = min c (int (width df) - 1)"

section \<open>The search filter\<close>

lemma running_min_Min: "running_min m xs = Min (insert m (set xs))"
proof (induction xs arbitrary: m)
  case Nil
  then show ?case by simp
next
  case (Cons x xs)
  have "Min (insert (min m x) (set xs)) = Min (insert m (insert x (set xs)))"
    by (cases "set xs = {}") (auto simp: min.assoc min.commute)
  with Cons show ?case by simp
qed

lemma match_score_Min:
  assumes "ts \<noteq> []"
  shows "match_score e ts row = Min (term_score e row ` set ts)"
proof -
  obtain t rest where ts: "ts = t # rest"
    using assms by (cases ts) auto
  show ?thesis
    by (simp add: match_score_def ts running_min_Min)
qed

lemma match_score_no_terms: "match_score e [] row = 0"
  by (simp add: match_score_def)

lemma set_all_results:
  "set (all_results e cats ts) =
     {row. \<exists>name c. (name, c) \<in> set cats \<and> row \<in> set (data c) \<and> 50 \<le> match_score e ts row}"
  by (auto simp: all_results_def matching_def)

lemma lower_eq_Nil [simp]: "lower s = [] \<longleftrightarrow> s = []"
  by (simp add: lower_def)

lemma app_search:
  assumes "cats \<noteq> []" and "q \<noteq> []"
  shows "app e cats q b f =
           (if all_results e cats (split (lower q)) = [] then NoProductsWarning q
            else Found (length (filtered_results f (all_results e cats (split (lower q))))) f
                   (filtered_results f (all_results e cats (split (lower q)))))"
  using assms by (simp add: app_def Let_def)

text \<open>
  C1. Take a query that is not empty, its terms \<open>ts\<close> (the query lowercased, then split on
  whitespace) and a row of a loaded catalog. The row is among the search results if and
  only if there is at least one term and the minimum over the terms of the maximum of the
  two scores, the term against the lowercased code and against the lowercased
  description, is at least 50. (A query of whitespace only has no term, the score is
  then 0 and the row is dropped.) So a row that scores below 50 on one term is not among
  the results, whatever it scores on the others. With the filter on "All" the page shows
  exactly these results.
\<close>

theorem search_keeps_row_iff_min_of_max:
  assumes "search_query \<noteq> []"
    and "ts = split (lower search_query)"
    and "(name, c) \<in> set cats"
    and "row \<in> set (data c)"
  shows "(row \<in> set (all_results e cats ts) \<longleftrightarrow>
            ts \<noteq> [] \<and>
            50 \<le> Min ((\<lambda>t. max (token_set_ratio e t (lower (py_str e (Some (Code row)))))
                               (token_set_ratio e t (lower (Product row)))) ` set ts))
         \<and> (\<forall>t \<in> set ts.
               max (token_set_ratio e t (lower (py_str e (Some (Code row)))))
                   (token_set_ratio e t (lower (Product row))) < 50
               \<longrightarrow> row \<notin> set (all_results e cats ts))
         \<and> app e cats search_query b ''All'' =
             (if all_results e cats ts = [] then NoProductsWarning search_query
              else Found (length (all_results e cats ts)) ''All'' (all_results e cats ts))"
proof -
  let ?score = "\<lambda>t. max (token_set_ratio e t (lower (py_str e (Some (Code row)))))
                        (token_set_ratio e t (lower (Product row)))"
  have score: "term_score e row = ?score"
    by (rule ext) (simp add: term_score_def)
  have mem: "row \<in> set (all_results e cats ts) \<longleftrightarrow> 50 \<le> match_score e ts row"
    using assms(3,4) by (auto simp: set_all_results)
  have iff: "50 \<le> match_score e ts row \<longleftrightarrow> ts \<noteq> [] \<and> 50 \<le> Min (?score ` set ts)"
  proof (cases "ts = []")
    case True
    then show ?thesis by (simp add: match_score_no_terms)
  next
    case False
    then show ?thesis by (simp add: match_score_Min score)
  qed
  have excl: "row \<notin> set (all_results e cats ts)" if "t \<in> set ts" and "?score t < 50" for t
  proof -
    have "ts \<noteq> []" using that(1) by auto
    moreover have "Min (?score ` set ts) \<le> ?score t"
      using that(1) by (intro Min_le) auto
    ultimately show ?thesis
      using that(2) mem iff by linarith
  qed
  have "cats \<noteq> []" using assms(3) by auto
  then have page: "app e cats search_query b ''All'' =
             (if all_results e cats ts = [] then NoProductsWarning search_query
              else Found (length (all_results e cats ts)) ''All'' (all_results e cats ts))"
    using assms(1,2) by (simp add: app_search filtered_results_def)
  show ?thesis
    using mem iff excl page by blast
qed

theorem search_keeps_row_witness:
  "split (lower ''Blue matte'') = [''blue'', ''matte'']
   \<and> example_products ! 1 \<in> set (data \<lparr>data = example_products, sheet = ''Sheet1''\<rparr>)
   \<and> example_products ! 0 \<in> set (all_results example_env example_catalogs (split (lower ''Blue matte'')))
   \<and> example_products ! 1 \<notin> set (all_results example_env example_catalogs (split (lower ''Blue matte'')))"
proof -
  let ?ts = "split (lower ''Blue matte'')"
  let ?c = "\<lparr>data = example_products, sheet = ''Sheet1''\<rparr>"
  let ?row = "example_products ! 1"
  have q: "''Blue matte'' \<noteq> []" by simp
  have c: "(''Akzo'', ?c) \<in> set example_catalogs" by (simp add: example_catalogs_def)
  have r1: "?row \<in> set (data ?c)" by (simp add: example_products_def)
  have ts: "?ts = [''blue'', ''matte'']" by code_simp
  have low: "max (token_set_ratio example_env ''matte'' (lower (py_str example_env (Some (Code ?row)))))
                 (token_set_ratio example_env ''matte'' (lower (Product ?row))) < 50"
    by code_simp
  have res: "all_results example_env example_catalogs [''blue'', ''matte''] = [example_products ! 0]"
    by code_simp
  have m: "''matte'' \<in> set ?ts" using ts by simp
  have "\<forall>t \<in> set ?ts.
          max (token_set_ratio example_env t (lower (py_str example_env (Some (Code ?row)))))
              (token_set_ratio example_env t (lower (Product ?row))) < 50
          \<longrightarrow> ?row \<notin> set (all_results example_env example_catalogs ?ts)"
    using search_keeps_row_iff_min_of_max [OF q refl c r1, of example_env True] by blast
  then have "?row \<notin> set (all_results example_env example_catalogs ?ts)"
    using m low by blast
  moreover have "example_products ! 0 \<in> set (all_results example_env example_catalogs ?ts)"
    using res ts by simp
  ultimately show ?thesis using ts r1 by blast
qed

section \<open>The catalog loader\<close>

subsection \<open>Rows\<close>

lemma read_cells_InrD:
  assumes "read_cells cfg pc row = Inr (code, desc, price)"
  shows "get_col row (code_col cfg) = Inr code"
    and "get_col row (desc_col cfg) = Inr desc"
    and "get_col row pc = Inr price"
  using assms by (auto simp: read_cells_def split: sum.splits)

lemma product_of_row_SomeD:
  assumes "product_of_row e name cfg pc row = Inr (Some p)"
  obtains code desc0 price desc where
    "read_cells cfg pc row = Inr (code, desc0, price)"
    and "final_desc e cfg row desc0 = Inr desc"
    and "keep_desc e desc"
    and "format_price e price = Inr (Price p)"
    and "Code p = code_value code"
    and "Product p = strip (py_str e desc)"
    and "Catalog p = name"
  using assms
  by (auto simp: product_of_row_def split: sum.splits if_splits)

lemma product_of_row_Price:
  assumes "product_of_row e name cfg pc row = Inr (Some p)"
    and "get_col row pc = Inr price"
  shows "format_price e price = Inr (Price p)"
proof -
  from assms(1) obtain code desc0 price' desc where
    rd: "read_cells cfg pc row = Inr (code, desc0, price')"
    and p: "format_price e price' = Inr (Price p)"
    by (rule product_of_row_SomeD)
  from read_cells_InrD(3) [OF rd] assms(2) have "price' = price" by simp
  with p show ?thesis by simp
qed

lemma format_2f_twelve_fifty: "format_2f (Finite (25 / 2)) = ''12.50''"
  by code_simp

lemma strip_all_space:
  assumes "list_all isspace s"
  shows "strip s = []"
proof -
  have d: "dropWhile isspace s = []"
    using assms unfolding list_all_iff by (metis dropWhile_eq_Nil_conv)
  show ?thesis unfolding strip_def d by simp
qed

lemma strip_not_all_space:
  assumes "strip s \<noteq> []"
  shows "\<not> list_all isspace (strip s)"
proof -
  let ?t = "dropWhile isspace (rev (dropWhile isspace s))"
  have t: "?t \<noteq> []" using assms by (simp add: strip_def)
  then have "\<not> isspace (hd ?t)" by (rule hd_dropWhile)
  moreover have "hd ?t \<in> set (strip s)" using t by (simp add: strip_def)
  ultimately show ?thesis by (auto simp: list_all_iff)
qed

lemma keep_desc_not_blank: "keep_desc e desc \<Longrightarrow> \<not> blank_desc e desc"
  using strip_all_space by (auto simp: keep_desc_def blank_desc_def)

lemma build_products_mem:
  assumes "build_products e name cfg pc rws = Inr ps" and "p \<in> set ps"
  shows "\<exists>row \<in> set rws. product_of_row e name cfg pc row = Inr (Some p)"
  using assms
proof (induction rws arbitrary: ps)
  case Nil
  then show ?case by simp
next
  case (Cons row rws)
  then show ?case
    by (auto split: sum.splits option.splits)
qed

lemma set_update_subset: "set (AList.update k v al) \<subseteq> insert (k, v) (set al)"
  by (induction al) auto

lemma load_loop_catalog_mem:
  assumes "(name, c) \<in> set (catalogs (load_loop e fs cfgs st))"
  shows "(name, c) \<in> set (catalogs st)
       \<or> (\<exists>cfg. (name, cfg) \<in> set cfgs \<and> load_vendor e name cfg (fs (filename cfg)) = Inr (Some c))"
  using assms
proof (induction cfgs arbitrary: st)
  case Nil
  then show ?case by simp
next
  case (Cons a cfgs)
  obtain n cfg where a: "a = (n, cfg)" by (cases a)
  show ?case
  proof (cases "load_vendor e n cfg (fs (filename cfg))")
    case (Inl err)
    with Cons.IH [of "st\<lparr>warnings := warnings st @ [(n, err)]\<rparr>"] Cons.prems a
    show ?thesis by auto
  next
    case (Inr r)
    show ?thesis
    proof (cases r)
      case None
      with Inr Cons.IH [of st] Cons.prems a show ?thesis by auto
    next
      case (Some c')
      with Inr Cons.IH [of "st\<lparr>catalogs := AList.update n c' (catalogs st)\<rparr>"] Cons.prems a
      have "(name, c) \<in> set (AList.update n c' (catalogs st))
           \<or> (\<exists>cfg. (name, cfg) \<in> set cfgs \<and> load_vendor e name cfg (fs (filename cfg)) = Inr (Some c))"
        by auto
      then show ?thesis
        using set_update_subset [of n c' "catalogs st"] Inr Some a by auto
    qed
  qed
qed

lemma workbook_catalog_SomeD:
  assumes "workbook_catalog e name cfg wb = Inr (Some c)"
  obtains sname df ps where "select_sheet name cfg wb = Inr (Some (sname, df))"
    and "sname \<noteq> []"
    and "build_products e name cfg (min (price_col cfg) (int (width df) - 1)) (rows df)
           = Inr ps"
    and "ps \<noteq> []" and "data c = dataframe_of ps" and "sheet c = sname"
  using assms
  by (auto simp: workbook_catalog_def split: sum.splits option.splits if_splits)

lemma dataframe_of_mem:
  assumes "p \<in> set (dataframe_of ps)"
  obtains q where "q \<in> set ps" and "Product p = Product q" and "Price p = Price q"
    and "Catalog p = Catalog q"
  using assms by (auto simp: dataframe_of_def)

lemma load_vendor_SomeD:
  assumes "load_vendor e name cfg src = Inr (Some c)"
  shows "\<exists>wb. src = Workbook wb \<and> workbook_catalog e name cfg wb = Inr (Some c)"
  using assms by (auto simp: load_vendor_def split: source.splits)

lemma loaded_product:
  assumes "(name, c) \<in> set (catalogs (load_paint_catalogs e fs))" and "p \<in> set (data c)"
  shows "\<exists>cfg pc row q. (name, cfg) \<in> set catalog_config
           \<and> product_of_row e name cfg pc row = Inr (Some q)
           \<and> Product p = Product q \<and> Price p = Price q \<and> Catalog p = Catalog q"
proof -
  from assms(1) obtain cfg where cfg: "(name, cfg) \<in> set catalog_config"
    and lv: "load_vendor e name cfg (fs (filename cfg)) = Inr (Some c)"
    using load_loop_catalog_mem [of name c e fs catalog_config "\<lparr>catalogs = [], warnings = []\<rparr>"]
    by (auto simp: load_paint_catalogs_def)
  from load_vendor_SomeD [OF lv] obtain wb where
    "workbook_catalog e name cfg wb = Inr (Some c)" by blast
  then obtain sname df ps where
    "select_sheet name cfg wb = Inr (Some (sname, df))" and "sname \<noteq> []"
    and bp: "build_products e name cfg (min (price_col cfg) (int (width df) - 1)) (rows df)
           = Inr ps"
    and "ps \<noteq> []" and d: "data c = dataframe_of ps" and "sheet c = sname"
    by (rule workbook_catalog_SomeD)
  from assms(2) d obtain q where q: "q \<in> set ps" and same: "Product p = Product q"
    "Price p = Price q" "Catalog p = Catalog q"
    by (auto elim: dataframe_of_mem)
  from build_products_mem [OF bp q] cfg same show ?thesis by blast
qed

subsection \<open>Digits, rounding and the conversion of integers\<close>

lemma digit_char_cases:
  assumes "(d::nat) < 10"
  shows "d \<in> {0, 1, 2, 3, 4, 5, 6, 7, 8, 9}"
  using assms by auto

lemma is_digit_digit_char:
  assumes "d < 10"
  shows "is_digit (digit_char d)"
  using digit_char_cases [OF assms] by (auto simp: is_digit_def digit_char_def)

lemma of_char_digit_char:
  assumes "d < 10"
  shows "(of_char (digit_char d) :: int) = 48 + int d"
  using digit_char_cases [OF assms] by (auto simp: digit_char_def)

lemma digit_char_nonzero:
  assumes "0 < d" and "d < 10"
  shows "digit_char d \<noteq> CHR ''0''"
proof
  assume "digit_char d = CHR ''0''"
  then have "(of_char (digit_char d) :: int) = 48" by simp
  with of_char_digit_char [OF assms(2)] assms(1) show False by simp
qed

lemma digits_value_snoc: "digits_value (ds @ [c]) = 10 * digits_value ds + (of_char c - 48)"
  by (simp add: digits_value_def)

lemma dec_digits_props:
  assumes "0 \<le> n"
  shows "dec_digits n \<noteq> [] \<and> list_all is_digit (dec_digits n)
         \<and> digits_value (dec_digits n) = n
         \<and> (length (dec_digits n) = 1 \<or> take 1 (dec_digits n) \<noteq> ''0'')"
  using assms
proof (induction n rule: dec_digits.induct)
  case (1 n)
  show ?case
  proof (cases "n < 10")
    case True
    with "1.prems" have d: "nat n < 10" by simp
    have "dec_digits n = [digit_char (nat n)]"
      using True by (simp add: dec_digits.simps)
    moreover have "digits_value [digit_char (nat n)] = n"
      using of_char_digit_char [OF d] "1.prems" by (simp add: digits_value_def)
    ultimately show ?thesis
      using is_digit_digit_char [OF d] by simp
  next
    case False
    let ?h = "dec_digits (n div 10)"
    let ?c = "digit_char (nat (n mod 10))"
    have eq: "dec_digits n = ?h @ [?c]"
      using False by (subst dec_digits.simps) simp
    have pos: "0 < n div 10" using False by simp
    then have IH: "?h \<noteq> [] \<and> list_all is_digit ?h \<and> digits_value ?h = n div 10
                   \<and> (length ?h = 1 \<or> take 1 ?h \<noteq> ''0'')"
      using "1.IH" False by simp
    have m: "nat (n mod 10) < 10" by simp
    have v: "digits_value (?h @ [?c]) = n"
      using IH of_char_digit_char [OF m] by (simp add: digits_value_snoc)
    have lead: "take 1 ?h \<noteq> ''0''"
    proof (cases "n div 10 < 10")
      case True
      then have "?h = [digit_char (nat (n div 10))]"
        by (simp add: dec_digits.simps)
      moreover have "digit_char (nat (n div 10)) \<noteq> CHR ''0''"
        using pos True by (intro digit_char_nonzero) simp_all
      ultimately show ?thesis by simp
    next
      case False
      then have "dec_digits (n div 10)
                 = dec_digits (n div 10 div 10) @ [digit_char (nat (n div 10 mod 10))]"
        by (subst dec_digits.simps) simp
      moreover have "dec_digits (n div 10 div 10) \<noteq> []"
        by (subst dec_digits.simps) simp
      ultimately have "length ?h \<noteq> 1"
        by (cases "dec_digits (n div 10 div 10)") simp_all
      with IH show ?thesis by simp
    qed
    have "take 1 (?h @ [?c]) = take 1 ?h"
      using IH by (cases ?h) simp_all
    with lead have "take 1 (dec_digits n) \<noteq> ''0''" by (simp add: eq)
    then show ?thesis
      using IH v is_digit_digit_char [OF m] by (simp add: eq)
  qed
qed



lemma round_half_even_nearest:
  "\<bar>of_int (round_half_even y) - y\<bar> \<le> 1 / 2
   \<and> (\<bar>of_int (round_half_even y) - y\<bar> = 1 / 2 \<longrightarrow> even (round_half_even y))"
proof -
  let ?f = "\<lfloor>y\<rfloor>"
  let ?d = "y - of_int ?f"
  have lo: "0 \<le> ?d" and hi: "?d < 1" by linarith+
  consider "?d < 1 / 2" | "1 / 2 < ?d" | "?d = 1 / 2" by linarith
  then show ?thesis
  proof cases
    case 1
    then have "round_half_even y = ?f" by (simp add: round_half_even_def Let_def)
    with 1 lo show ?thesis by simp
  next
    case 2
    then have "round_half_even y = ?f + 1" by (simp add: round_half_even_def Let_def)
    with 2 hi show ?thesis by simp
  next
    case 3
    then have r: "round_half_even y = (if even ?f then ?f else ?f + 1)"
      by (simp add: round_half_even_def Let_def)
    show ?thesis
    proof (cases "even ?f")
      case True
      with r 3 show ?thesis by simp
    next
      case False
      with r 3 show ?thesis by simp
    qed
  qed
qed

lemma round_half_even_nonneg:
  assumes "0 \<le> y"
  shows "0 \<le> round_half_even y"
proof -
  have "0 \<le> \<lfloor>y\<rfloor>" using assms by simp
  then show ?thesis by (simp add: round_half_even_def Let_def)
qed

lemma split_hundredths:
  fixes q :: int
  shows "10 * (10 * (q div 100) + q mod 100 div 10) + q mod 10 = q"
proof -
  define a b c d where "a = q div 100" and "b = q mod 100 div 10" and "c = q mod 10"
    and "d = q mod 100"
  have "d mod 10 = c"
    unfolding c_def d_def by (simp add: mod_mod_cancel)
  moreover have "d = 10 * (d div 10) + d mod 10" by simp
  ultimately have 2: "d = 10 * b + c" by (simp add: b_def d_def)
  have 1: "q = 100 * a + d" by (simp add: a_def d_def)
  have "10 * (10 * a + b) + c = q" using 1 2 by simp
  then show ?thesis by (simp only: a_def b_def c_def)
qed

lemma digits_value_two:
  "digits_value (ds @ [c1, c2])
     = 10 * (10 * digits_value ds + (of_char c1 - 48)) + (of_char c2 - 48)"
  by (simp add: digits_value_def)

lemma mod_div_nonneg:
  fixes q :: int
  shows "(if 0 \<le> q mod 100 div 10 then q mod 100 div 10 else 0) = q mod 100 div 10"
    and "(if 0 \<le> q mod 10 then q mod 10 else 0) = q mod 10"
proof -
  have "0 \<le> q mod 100" by simp
  then have "0 \<le> q mod 100 div 10" by (rule pos_imp_zdiv_nonneg_iff [THEN iffD2, rotated]) simp
  then show "(if 0 \<le> q mod 100 div 10 then q mod 100 div 10 else 0) = q mod 100 div 10"
    by simp
  show "(if 0 \<le> q mod 10 then q mod 10 else 0) = q mod 10" by simp
qed

lemma format_2f_two_place: "two_place_text r (format_2f (Finite r))"
proof -
  let ?q = "round_half_even (\<bar>r\<bar> * 100)"
  let ?ds = "dec_digits (?q div 100)"
  let ?c1 = "digit_char (nat (?q mod 100 div 10))"
  let ?c2 = "digit_char (nat (?q mod 10))"
  let ?body = "?ds @ ''.'' @ [?c1, ?c2]"
  have q0: "0 \<le> ?q" by (rule round_half_even_nonneg) simp
  then have "0 \<le> ?q div 100" by simp
  from dec_digits_props [OF this]
  have ne: "?ds \<noteq> []" and dig: "list_all is_digit ?ds"
    and val: "digits_value ?ds = ?q div 100"
    and canon: "length ?ds = 1 \<or> take 1 ?ds \<noteq> ''0''"
    by simp_all
  have m1: "nat (?q mod 100 div 10) < 10" and m2: "nat (?q mod 10) < 10"
    by simp_all
  have s: "format_2f (Finite r) = (if r < 0 then ''-'' else []) @ ?body"
    by (simp add: Let_def)
  have body: "(if r < 0 then drop 1 (format_2f (Finite r)) else format_2f (Finite r)) = ?body"
    unfolding s by simp
  have tw: "takeWhile is_digit ?body = ?ds"
    using dig by (simp add: takeWhile_append2 list_all_iff is_digit_def)
  have fs: "drop (Suc (length ?ds)) ?body = [?c1, ?c2]" by simp
  have pt: "take 1 (drop (length ?ds) ?body) = ''.''" by simp
  have "digits_value (?ds @ [?c1, ?c2])
          = 10 * (10 * digits_value ?ds + (of_char ?c1 - 48)) + (of_char ?c2 - 48)"
    by (rule digits_value_two)
  also have "\<dots> = 10 * (10 * (?q div 100) + ?q mod 100 div 10) + ?q mod 10"
    unfolding val of_char_digit_char [OF m1] of_char_digit_char [OF m2]
    by (simp only: add_diff_cancel_left' int_nat_eq mod_div_nonneg)
  also have "\<dots> = ?q" by (rule split_hundredths)
  finally have v: "digits_value (?ds @ [?c1, ?c2]) = ?q" .
  have near: "\<bar>of_int ?q / 100 - \<bar>r\<bar>\<bar> \<le> 1 / 200
              \<and> (\<bar>of_int ?q / 100 - \<bar>r\<bar>\<bar> = 1 / 200 \<longrightarrow> even ?q)"
  proof -
    have e: "\<bar>of_int ?q / 100 - \<bar>r\<bar>\<bar> = \<bar>of_int ?q - \<bar>r\<bar> * 100\<bar> / 100"
      by (simp add: abs_if field_simps)
    show ?thesis
      unfolding e using round_half_even_nearest [of "\<bar>r\<bar> * 100"] by (simp add: field_simps)
  qed
  have sign: "r < 0 \<longrightarrow> take 1 (format_2f (Finite r)) = ''-''"
    unfolding s by simp
  show ?thesis
    unfolding two_place_text_def Let_def body tw fs v
    using sign ne canon pt near is_digit_digit_char [OF m1] is_digit_digit_char [OF m2]
    by simp
qed


lemma bit_length_le:
  assumes "n < 2 ^ k"
  shows "bit_length n \<le> k"
  using assms
proof (induction k arbitrary: n)
  case 0
  then have "n \<le> 0" by simp
  then show ?case by (subst bit_length.simps) simp
next
  case (Suc k)
  show ?case
  proof (cases "n \<le> 0")
    case True
    then show ?thesis by (subst bit_length.simps) simp
  next
    case False
    from Suc.prems have "n div 2 < 2 ^ k" by simp
    from Suc.IH [OF this] False show ?thesis
      by (subst bit_length.simps) simp
  qed
qed

lemma float_of_big_int: "float_of_int 9007199254740993 = Some 9007199254740992"
  by code_simp

lemma float_of_int_two_53:
  "float_of_int 9007199254740992 = Some 9007199254740992"
  "float_of_int (- 9007199254740992) = Some (- 9007199254740992)"
  by code_simp+

lemma float_of_int_exact:
  assumes "\<bar>i\<bar> \<le> 2 ^ 53"
  shows "float_of_int i = Some (of_int i)"
proof (cases "\<bar>i\<bar> < 2 ^ 53")
  case True
  then have "bit_length \<bar>i\<bar> \<le> 53" by (rule bit_length_le)
  then show ?thesis by (simp add: float_of_int_def Let_def)
next
  case False
  with assms have "i = 9007199254740992 \<or> i = - 9007199254740992" by auto
  then show ?thesis using float_of_int_two_53 by auto
qed

lemma format_2f_big: "format_2f (Finite 9007199254740992) = ''9007199254740992.00''"
  by code_simp

lemma float_of_int_overflow: "float_of_int (2 ^ 1024) = None"
  by code_simp

lemma price_beyond_double_raises: "format_price e (Some (IntV (2 ^ 1024))) = Inl OverflowError"
  using float_of_int_overflow by (simp add: format_price_def)

lemma format_2f_one: "format_2f (Finite 1) = ''1.00''"
  by code_simp

lemma format_2f_zero: "format_2f (Finite 0) = ''0.00''"
  by code_simp

subsection \<open>Prices\<close>

text \<open>
  C2. For a row that the loader keeps, with \<open>price\<close> the value read at the price column.
  A numeric price, one that \<open>float\<close> accepts, is rendered as the pound sign followed by
  the decimal with two places nearest to the value of \<open>float(price)\<close>: 12.5 gives
  \<open>12.50\<close>; a float gives its own value to two places; an \<open>int\<close> of at most 53 bits
  gives its own value, a longer one the value of the nearest double, so that
  \<open>9007199254740993\<close> gives \<open>9007199254740992.00\<close>; a Boolean gives \<open>1.00\<close> or
  \<open>0.00\<close>; a text that \<open>float\<close> reads as a finite number gives that number. A price
  that is not numeric, a text that \<open>float\<close> rejects or a date, is rendered as its own
  text. A missing price is rendered as \<open>N/A\<close>.
\<close>

theorem loader_price_rendering:
  assumes "product_of_row e name cfg pc row = Inr (Some p)"
    and "get_col row pc = Inr price"
  shows "(price = Some (FloatV (25 / 2)) \<longrightarrow> Price p = pound @ ''12.50'')
       \<and> (\<forall>r. price = Some (FloatV r) \<longrightarrow>
             take 1 (Price p) = pound \<and> two_place_text r (drop 1 (Price p)))
       \<and> (\<forall>i. price = Some (IntV i) \<and> \<bar>i\<bar> \<le> 2 ^ 53 \<longrightarrow>
             take 1 (Price p) = pound \<and> two_place_text (of_int i) (drop 1 (Price p)))
       \<and> (\<forall>i. price = Some (IntV i) \<longrightarrow>
             (\<exists>x. float_of_int i = Some x \<and> take 1 (Price p) = pound
                  \<and> two_place_text x (drop 1 (Price p))))
       \<and> (price = Some (IntV 9007199254740993) \<longrightarrow>
             Price p = pound @ ''9007199254740992.00'')
       \<and> (\<forall>b. price = Some (BoolV b) \<longrightarrow>
             Price p = pound @ (if b then ''1.00'' else ''0.00''))
       \<and> (\<forall>s x. price = Some (Text s) \<and> s \<noteq> ''N/A'' \<and> float_of_str e s = Some (Finite x) \<longrightarrow>
             take 1 (Price p) = pound \<and> two_place_text x (drop 1 (Price p)))
       \<and> (\<forall>s. price = Some (Text s) \<and> float_of_str e s = None \<longrightarrow> Price p = s)
       \<and> (\<forall>t. price = Some (DateV t) \<longrightarrow> Price p = t)
       \<and> (price = Some NaN \<or> price = None \<longrightarrow> Price p = ''N/A'')"
proof -
  have pr: "format_price e price = Inr (Price p)"
    using assms by (rule product_of_row_Price)
  have fin: "take 1 (Price p) = pound \<and> two_place_text x (drop 1 (Price p))"
    if "Price p = pound @ format_2f (Finite x)" for x
    using that format_2f_two_place [of x] by (simp add: pound_def)
  have float: "take 1 (Price p) = pound \<and> two_place_text r (drop 1 (Price p))"
    if "price = Some (FloatV r)" for r
    using pr that by (intro fin) (simp add: format_price_def)
  have int: "\<exists>x. float_of_int i = Some x \<and> take 1 (Price p) = pound
                  \<and> two_place_text x (drop 1 (Price p))"
    if i: "price = Some (IntV i)" for i
  proof (cases "float_of_int i")
    case None
    with pr i show ?thesis by (simp add: format_price_def)
  next
    case (Some x)
    with pr i have "Price p = pound @ format_2f (Finite x)"
      by (simp add: format_price_def)
    with Some fin show ?thesis by blast
  qed
  have small: "take 1 (Price p) = pound \<and> two_place_text (of_int i) (drop 1 (Price p))"
    if "price = Some (IntV i)" and "\<bar>i\<bar> \<le> 2 ^ 53" for i
    using int [OF that(1)] float_of_int_exact [OF that(2)] by simp
  have big: "Price p = pound @ ''9007199254740992.00''"
    if "price = Some (IntV 9007199254740993)"
    using pr that float_of_big_int format_2f_big by (simp add: format_price_def)
  have bool: "Price p = pound @ (if b then ''1.00'' else ''0.00'')"
    if "price = Some (BoolV b)" for b
    using pr that format_2f_one format_2f_zero
    by (cases b) (simp_all add: format_price_def del: format_2f.simps)
  have numeric_text: "take 1 (Price p) = pound \<and> two_place_text x (drop 1 (Price p))"
    if "price = Some (Text s)" and "s \<noteq> ''N/A''" and "float_of_str e s = Some (Finite x)"
    for s x
    using pr that by (intro fin) (simp add: format_price_def)
  have raw: "Price p = s" if "price = Some (Text s)" and "float_of_str e s = None" for s
    using pr that by (auto simp: format_price_def split: if_splits)
  have date: "Price p = t" if "price = Some (DateV t)" for t
    using pr that by (simp add: format_price_def)
  have missing: "Price p = ''N/A''" if "price = Some NaN \<or> price = None"
    using pr that by (auto simp: format_price_def)
  have twelve: "Price p = pound @ ''12.50''" if "price = Some (FloatV (25 / 2))"
    using pr that format_2f_twelve_fifty by (simp add: format_price_def del: format_2f.simps)
  show ?thesis
    using twelve float small int big bool numeric_text raw date missing by blast
qed

theorem loader_price_rendering_witness:
  "product_of_row example_env ''Akzo'' (snd (catalog_config ! 0)) 5 (rows example_sheet ! 0)
     = Inr (Some (example_products ! 0))
   \<and> get_col (rows example_sheet ! 0) 5 = Inr (Some (FloatV (25 / 2)))
   \<and> Price (example_products ! 0) = pound @ ''12.50''"
proof -
  have a: "product_of_row example_env ''Akzo'' (snd (catalog_config ! 0)) 5 (rows example_sheet ! 0)
     = Inr (Some (example_products ! 0))"
    by code_simp
  have b: "get_col (rows example_sheet ! 0) 5 = Inr (Some (FloatV (25 / 2)))"
    by code_simp
  from loader_price_rendering [OF a b] show ?thesis
    using a b by blast
qed

text \<open>
  C3 says that a non-numeric price becomes the marker \<open>N/A\<close>. The second row of the
  example sheet has the price \<open>POA\<close>, which \<open>float\<close> rejects, and its record keeps
  \<open>POA\<close> as the price: the \<open>except\<close> branch of the loader stores \<open>str(price)\<close>.
\<close>

theorem non_numeric_price_counterexample:
  "get_col (rows example_sheet ! 1) 5 = Inr (Some (Text ''POA''))
   \<and> float_of_str example_env ''POA'' = None
   \<and> product_of_row example_env ''Akzo'' (snd (catalog_config ! 0)) 5 (rows example_sheet ! 1)
       = Inr (Some \<lparr>Code = Text ''A200'', Product = ''Blue Gloss'', Price = ''POA'',
                    Catalog = ''Akzo''\<rparr>)
   \<and> ''POA'' \<noteq> ''N/A''"
  by code_simp

text \<open>
  C3, amended. For a row that the loader keeps: when the price cell is missing, or is
  the text \<open>N/A\<close> itself, the price field is the marker \<open>N/A\<close>; when the price cell is a
  text that \<open>float\<close> rejects, the price field is that text unchanged.
\<close>

theorem missing_price_marker:
  assumes "product_of_row e name cfg pc row = Inr (Some p)"
    and "get_col row pc = Inr price"
  shows "(price = None \<or> price = Some NaN \<or> price = Some (Text ''N/A'') \<longrightarrow> Price p = ''N/A'')
       \<and> (\<forall>s. price = Some (Text s) \<and> float_of_str e s = None \<longrightarrow> Price p = s)"
proof -
  have pr: "format_price e price = Inr (Price p)"
    using assms by (rule product_of_row_Price)
  have "Price p = ''N/A''" if "price = None \<or> price = Some NaN \<or> price = Some (Text ''N/A'')"
    using pr that by (auto simp: format_price_def)
  moreover have "Price p = s" if "price = Some (Text s)" and "float_of_str e s = None" for s
    using pr that by (auto simp: format_price_def split: if_splits)
  ultimately show ?thesis by blast
qed

theorem missing_price_marker_witness:
  "product_of_row example_env ''Akzo'' (snd (catalog_config ! 0)) 5 (rows example_sheet ! 3)
     = Inr (Some (example_products ! 2))
   \<and> get_col (rows example_sheet ! 3) 5 = Inr (Some NaN)
   \<and> Price (example_products ! 2) = ''N/A''"
proof -
  have a: "product_of_row example_env ''Akzo'' (snd (catalog_config ! 0)) 5 (rows example_sheet ! 3)
     = Inr (Some (example_products ! 2))"
    by code_simp
  have b: "get_col (rows example_sheet ! 3) 5 = Inr (Some NaN)"
    by code_simp
  from missing_price_marker [OF a b] show ?thesis
    using a b by blast
qed

subsection \<open>Descriptions\<close>

text \<open>
  C4. Every product of every loaded catalog has a description that is neither empty nor
  only whitespace. A row whose description, after the extra columns are added, is
  missing, empty or only whitespace gives no product; and every product of the list
  built from a sheet is the product of one of its rows.
\<close>

theorem loaded_description_never_blank:
  "(\<forall>name c p. (name, c) \<in> set (catalogs (load_paint_catalogs e fs)) \<and> p \<in> set (data c)
       \<longrightarrow> Product p \<noteq> [] \<and> \<not> list_all isspace (Product p))
   \<and> (\<forall>name cfg pc row code desc0 price desc.
         read_cells cfg pc row = Inr (code, desc0, price)
         \<and> final_desc e cfg row desc0 = Inr desc \<and> blank_desc e desc
       \<longrightarrow> product_of_row e name cfg pc row = Inr None)
   \<and> (\<forall>name cfg pc rws ps p. build_products e name cfg pc rws = Inr ps \<and> p \<in> set ps
       \<longrightarrow> (\<exists>row \<in> set rws. product_of_row e name cfg pc row = Inr (Some p)))"
proof -
  have a: "Product p \<noteq> [] \<and> \<not> list_all isspace (Product p)"
    if "(name, c) \<in> set (catalogs (load_paint_catalogs e fs))" and "p \<in> set (data c)"
    for name c p
  proof -
    from loaded_product [OF that] obtain cfg pc row q where
      "product_of_row e name cfg pc row = Inr (Some q)" and "Product p = Product q"
      by blast
    then obtain desc where "keep_desc e desc" and "Product p = strip (py_str e desc)"
      by (auto elim!: product_of_row_SomeD)
    then show ?thesis
      using strip_not_all_space by (simp add: keep_desc_def)
  qed
  have b: "product_of_row e name cfg pc row = Inr None"
    if "read_cells cfg pc row = Inr (code, desc0, price)"
      and "final_desc e cfg row desc0 = Inr desc" and "blank_desc e desc"
    for name cfg pc row code desc0 price desc
    using that keep_desc_not_blank [of e desc] by (auto simp: product_of_row_def)
  show ?thesis
    using a b build_products_mem by blast
qed

theorem loaded_description_witness:
  "blank_desc example_env (Some (Text ''   ''))
   \<and> product_of_row example_env ''Akzo'' (snd (catalog_config ! 0)) 5 (rows example_sheet ! 2)
       = Inr None
   \<and> map Product example_products = [''Blue Matte Emulsion'', ''Blue Gloss'', ''White Primer'']"
proof -
  let ?cfg = "snd (catalog_config ! 0)"
  let ?row = "rows example_sheet ! 2"
  have rd: "read_cells ?cfg 5 ?row
              = Inr (Some (Text ''A300''), Some (Text ''   ''), Some (FloatV 3))"
    by code_simp
  have fd: "final_desc example_env ?cfg ?row (Some (Text ''   '')) = Inr (Some (Text ''   ''))"
    by code_simp
  have bl: "blank_desc example_env (Some (Text ''   ''))"
    by code_simp
  have "product_of_row example_env ''Akzo'' ?cfg 5 ?row = Inr None"
    using loaded_description_never_blank [of example_env example_fs] rd fd bl by blast
  moreover have "map Product example_products
                   = [''Blue Matte Emulsion'', ''Blue Gloss'', ''White Primer'']"
    by (simp add: example_products_def)
  ultimately show ?thesis using bl by blast
qed

subsection \<open>Vendors\<close>

lemma distinct_catalog_config: "distinct (map fst catalog_config)"
  by (simp add: catalog_config_def)

lemma config_unique:
  assumes "(name, cfg) \<in> set catalog_config" and "(name, cfg') \<in> set catalog_config"
  shows "cfg' = cfg"
  by (rule eq_key_imp_eq_value [OF distinct_catalog_config assms(2) assms(1)])

lemma map_of_config:
  assumes "(name, cfg) \<in> set catalog_config"
  shows "map_of catalog_config name = Some cfg"
  by (rule map_of_is_SomeI [OF distinct_catalog_config assms])

lemma map_of_load_loop:
  assumes "distinct (map fst cfgs)"
  shows "map_of (catalogs (load_loop e fs cfgs st)) name =
           (case map_of cfgs name of
              None \<Rightarrow> map_of (catalogs st) name
            | Some cfg \<Rightarrow>
                (case load_vendor e name cfg (fs (filename cfg)) of
                   Inr (Some c) \<Rightarrow> Some c
                 | _ \<Rightarrow> map_of (catalogs st) name))"
  using assms
proof (induction cfgs arbitrary: st)
  case Nil
  then show ?case by simp
next
  case (Cons a cfgs)
  obtain n cfg where a: "a = (n, cfg)" by (cases a)
  from Cons.prems a have n: "map_of cfgs n = None" and d: "distinct (map fst cfgs)"
    by (auto simp: map_of_eq_None_iff)
  show ?case
  proof (cases "load_vendor e n cfg (fs (filename cfg))")
    case (Inl err)
    then show ?thesis
      using Cons.IH [OF d, of "st\<lparr>warnings := warnings st @ [(n, err)]\<rparr>"] a n
      by (auto split: option.splits sum.splits)
  next
    case (Inr r)
    show ?thesis
    proof (cases r)
      case None
      then show ?thesis
        using Cons.IH [OF d, of st] a n Inr by (auto split: option.splits sum.splits)
    next
      case (Some c')
      then show ?thesis
        using Cons.IH [OF d, of "st\<lparr>catalogs := AList.update n c' (catalogs st)\<rparr>"] a n Inr
        by (auto simp: update_conv' split: option.splits sum.splits)
    qed
  qed
qed

lemma warnings_load_loop:
  "set (warnings (load_loop e fs cfgs st)) =
     set (warnings st) \<union>
     {(n, err). \<exists>cfg. (n, cfg) \<in> set cfgs \<and> load_vendor e n cfg (fs (filename cfg)) = Inl err}"
proof (induction cfgs arbitrary: st)
  case Nil
  then show ?case by simp
next
  case (Cons a cfgs)
  obtain n cfg where a: "a = (n, cfg)" by (cases a)
  show ?case
  proof (cases "load_vendor e n cfg (fs (filename cfg))")
    case (Inl err)
    then show ?thesis
      using Cons.IH [of "st\<lparr>warnings := warnings st @ [(n, err)]\<rparr>"] a by auto
  next
    case (Inr r)
    show ?thesis
    proof (cases r)
      case None
      then show ?thesis
        using Cons.IH [of st] a Inr by auto
    next
      case (Some c')
      then show ?thesis
        using Cons.IH [of "st\<lparr>catalogs := AList.update n c' (catalogs st)\<rparr>"] a Inr by auto
    qed
  qed
qed


lemma loaded_entry:
  assumes "(name, cfg) \<in> set catalog_config"
  shows "map_of (catalogs (load_paint_catalogs e fs)) name =
           (case load_vendor e name cfg (fs (filename cfg)) of
              Inr (Some c) \<Rightarrow> Some c
            | _ \<Rightarrow> None)"
proof -
  have "map_of (catalogs (load_paint_catalogs e fs)) name =
          (case load_vendor e name cfg (fs (filename cfg)) of
             Inr (Some c) \<Rightarrow> Some c
           | _ \<Rightarrow> map_of (catalogs \<lparr>catalogs = [], warnings = []\<rparr>) name)"
    unfolding load_paint_catalogs_def
    by (simp only: map_of_load_loop [OF distinct_catalog_config] map_of_config [OF assms]
          option.case)
  then show ?thesis
    by (cases "load_vendor e name cfg (fs (filename cfg))") (simp_all split: option.splits)
qed

lemma loaded_warning:
  assumes "(name, cfg) \<in> set catalog_config"
  shows "(name, err) \<in> set (warnings (load_paint_catalogs e fs))
           \<longleftrightarrow> load_vendor e name cfg (fs (filename cfg)) = Inl err"
proof
  assume "(name, err) \<in> set (warnings (load_paint_catalogs e fs))"
  then obtain cfg' where c: "(name, cfg') \<in> set catalog_config"
    and l: "load_vendor e name cfg' (fs (filename cfg')) = Inl err"
    unfolding load_paint_catalogs_def warnings_load_loop by auto
  from config_unique [OF assms c] l
  show "load_vendor e name cfg (fs (filename cfg)) = Inl err" by simp
next
  assume "load_vendor e name cfg (fs (filename cfg)) = Inl err"
  with assms show "(name, err) \<in> set (warnings (load_paint_catalogs e fs))"
    unfolding load_paint_catalogs_def warnings_load_loop by auto
qed

text \<open>
  C5 says that a vendor whose file is missing is skipped with a warning. In the example
  directory Crown's file is missing; the loader returns Akzo's catalog and its only
  warning is the one for PPG, whose file does not open. The test
  \<open>os.path.exists(filepath)\<close> has no \<open>else\<close>: a missing file is passed over in silence.
\<close>

theorem missing_file_warning_counterexample:
  "example_fs ''crown.xlsx'' = Absent
   \<and> load_paint_catalogs example_env example_fs
       = \<lparr>catalogs = example_catalogs,
          warnings = [(''PPG'', ReadError ''File is not a zip file'')]\<rparr>"
  by code_simp

text \<open>
  C5, amended. For each vendor of the configuration: when its file is missing the
  vendor has no catalog and no warning; when its file does not open, and whenever
  anything raises while the vendor is loaded, the vendor has no catalog and a warning
  with the exception is recorded. The loader always returns, and what it returns for a
  vendor depends on that vendor's file only: two data directories that agree on the file
  give the vendor the same catalog, whatever the other files are.
\<close>

theorem failed_vendor_is_skipped:
  assumes "(name, cfg) \<in> set catalog_config"
  shows "(fs (filename cfg) = Absent \<longrightarrow>
            map_of (catalogs (load_paint_catalogs e fs)) name = None
            \<and> name \<notin> fst ` set (warnings (load_paint_catalogs e fs)))
       \<and> (\<forall>msg. fs (filename cfg) = Corrupt msg \<longrightarrow>
            map_of (catalogs (load_paint_catalogs e fs)) name = None
            \<and> (name, ReadError msg) \<in> set (warnings (load_paint_catalogs e fs)))
       \<and> (\<forall>err. load_vendor e name cfg (fs (filename cfg)) = Inl err \<longrightarrow>
            map_of (catalogs (load_paint_catalogs e fs)) name = None
            \<and> (name, err) \<in> set (warnings (load_paint_catalogs e fs)))
       \<and> (\<forall>fs'. fs' (filename cfg) = fs (filename cfg) \<longrightarrow>
            map_of (catalogs (load_paint_catalogs e fs')) name
              = map_of (catalogs (load_paint_catalogs e fs)) name)"
proof -
  let ?L = "load_paint_catalogs e fs"
  have absent: "map_of (catalogs ?L) name = None \<and> name \<notin> fst ` set (warnings ?L)"
    if "fs (filename cfg) = Absent"
  proof -
    have lv: "load_vendor e name cfg (fs (filename cfg)) = Inr None"
      using that by (simp add: load_vendor_def)
    have "(name, err) \<notin> set (warnings ?L)" for err
      unfolding loaded_warning [OF assms] lv by simp
    then have "name \<notin> fst ` set (warnings ?L)" by force
    moreover have "map_of (catalogs ?L) name = None"
      unfolding loaded_entry [OF assms] lv by simp
    ultimately show ?thesis by simp
  qed
  have raised: "map_of (catalogs ?L) name = None \<and> (name, err) \<in> set (warnings ?L)"
    if lv: "load_vendor e name cfg (fs (filename cfg)) = Inl err" for err
  proof -
    have "map_of (catalogs ?L) name = None"
      unfolding loaded_entry [OF assms] lv by simp
    moreover have "(name, err) \<in> set (warnings ?L)"
      unfolding loaded_warning [OF assms] by (rule lv)
    ultimately show ?thesis by simp
  qed
  have corrupt: "map_of (catalogs ?L) name = None \<and> (name, ReadError msg) \<in> set (warnings ?L)"
    if "fs (filename cfg) = Corrupt msg" for msg
  proof (rule raised)
    show "load_vendor e name cfg (fs (filename cfg)) = Inl (ReadError msg)"
      using that by (simp add: load_vendor_def)
  qed
  have same: "map_of (catalogs (load_paint_catalogs e fs')) name = map_of (catalogs ?L) name"
    if "fs' (filename cfg) = fs (filename cfg)" for fs'
    unfolding loaded_entry [OF assms] that by (rule refl)
  show ?thesis
    using absent raised corrupt same by blast
qed

theorem failed_vendor_witness:
  "(''PPG'', snd (catalog_config ! 2)) \<in> set catalog_config
   \<and> example_fs (filename (snd (catalog_config ! 2))) = Corrupt ''File is not a zip file''
   \<and> map_of (catalogs (load_paint_catalogs example_env example_fs)) ''PPG'' = None
   \<and> (''PPG'', ReadError ''File is not a zip file'')
        \<in> set (warnings (load_paint_catalogs example_env example_fs))"
proof -
  have m: "(''PPG'', snd (catalog_config ! 2)) \<in> set catalog_config"
    by (simp add: catalog_config_def)
  have c: "example_fs (filename (snd (catalog_config ! 2))) = Corrupt ''File is not a zip file''"
    by code_simp
  from failed_vendor_is_skipped [OF m, of example_fs example_env] c m show ?thesis
    by blast
qed


lemma build_products_all_None:
  assumes "\<forall>row \<in> set rws. product_of_row e name cfg pc row = Inr None"
  shows "build_products e name cfg pc rws = Inr []"
  using assms by (induction rws) simp_all

lemma load_loop_cong:
  assumes "\<forall>(n, c) \<in> set cfgs.
             load_vendor e n c (fs' (filename c)) = load_vendor e n c (fs (filename c))"
  shows "load_loop e fs' cfgs st = load_loop e fs cfgs st"
  using assms by (induction cfgs arbitrary: st) auto

lemma load_loop_nothing:
  assumes "\<forall>(n, c) \<in> set cfgs. load_vendor e n c (fs (filename c)) = Inr None"
  shows "load_loop e fs cfgs st = st"
  using assms by (induction cfgs arbitrary: st) auto

lemma filename_unique:
  assumes "(name, cfg) \<in> set catalog_config" and "(n, c) \<in> set catalog_config"
    and "filename c = filename cfg"
  shows "n = name \<and> c = cfg"
  using assms by (auto simp: catalog_config_def)

lemma no_products_load_vendor:
  assumes "select_sheet name cfg wb = Inr (Some (sname, df))"
    and "\<forall>row \<in> set (rows df).
           product_of_row e name cfg (min (price_col cfg) (int (width df) - 1)) row = Inr None"
  shows "load_vendor e name cfg (Workbook wb) = Inr None"
  using assms(1) build_products_all_None [OF assms(2)]
  by (simp add: load_vendor_def workbook_catalog_def)

text \<open>
  C10. Take a vendor of the configuration whose workbook opens, whose sheet is selected
  and whose rows are all read without an exception and all dropped. Then the returned
  mapping has no entry for the vendor, no warning names it, and the loader returns
  exactly what it returns when the vendor's file is missing. If every vendor is so, the
  loader returns the empty mapping and no warning, and the page shows the error of the
  empty mapping.
\<close>

theorem vendor_without_products_has_no_entry:
  "(\<forall>name cfg wb sname df.
      (name, cfg) \<in> set catalog_config \<and> fs (filename cfg) = Workbook wb
      \<and> select_sheet name cfg wb = Inr (Some (sname, df))
      \<and> (\<forall>row \<in> set (rows df).
            product_of_row e name cfg (min (price_col cfg) (int (width df) - 1)) row = Inr None)
      \<longrightarrow> map_of (catalogs (load_paint_catalogs e fs)) name = None
          \<and> name \<notin> fst ` set (warnings (load_paint_catalogs e fs))
          \<and> load_paint_catalogs e (fs(filename cfg := Absent)) = load_paint_catalogs e fs)
   \<and> ((\<forall>(name, cfg) \<in> set catalog_config. \<exists>wb sname df.
          fs (filename cfg) = Workbook wb
          \<and> select_sheet name cfg wb = Inr (Some (sname, df))
          \<and> (\<forall>row \<in> set (rows df).
                product_of_row e name cfg (min (price_col cfg) (int (width df) - 1)) row
                  = Inr None))
       \<longrightarrow> load_paint_catalogs e fs = \<lparr>catalogs = [], warnings = []\<rparr>
           \<and> app e (catalogs (load_paint_catalogs e fs)) q b f = NoCatalogsError)"
proof -
  let ?L = "load_paint_catalogs e fs"
  have one: "map_of (catalogs ?L) name = None \<and> name \<notin> fst ` set (warnings ?L)
             \<and> load_paint_catalogs e (fs(filename cfg := Absent)) = ?L"
    if cfg: "(name, cfg) \<in> set catalog_config" and wb: "fs (filename cfg) = Workbook wb"
      and sel: "select_sheet name cfg wb = Inr (Some (sname, df))"
      and none: "\<forall>row \<in> set (rows df).
            product_of_row e name cfg (min (price_col cfg) (int (width df) - 1)) row = Inr None"
    for name cfg wb sname df
  proof -
    have lv: "load_vendor e name cfg (fs (filename cfg)) = Inr None"
      unfolding wb by (rule no_products_load_vendor [OF sel none])
    have entry: "map_of (catalogs ?L) name = None"
      unfolding loaded_entry [OF cfg] lv by simp
    have "(name, err) \<notin> set (warnings ?L)" for err
      unfolding loaded_warning [OF cfg] lv by simp
    then have warn: "name \<notin> fst ` set (warnings ?L)" by force
    have "load_vendor e n c ((fs(filename cfg := Absent)) (filename c))
            = load_vendor e n c (fs (filename c))"
      if nc: "(n, c) \<in> set catalog_config" for n c
    proof (cases "filename c = filename cfg")
      case True
      with filename_unique [OF cfg nc] have "n = name" and "c = cfg" by simp_all
      then show ?thesis using lv by (simp add: load_vendor_def)
    next
      case False
      then show ?thesis by simp
    qed
    then have "\<forall>(n, c) \<in> set catalog_config.
                 load_vendor e n c ((fs(filename cfg := Absent)) (filename c))
                   = load_vendor e n c (fs (filename c))"
      by blast
    then have "load_paint_catalogs e (fs(filename cfg := Absent)) = ?L"
      unfolding load_paint_catalogs_def by (rule load_loop_cong)
    with entry warn show ?thesis by simp
  qed
  have all: "?L = \<lparr>catalogs = [], warnings = []\<rparr> \<and> app e (catalogs ?L) q b f = NoCatalogsError"
    if h: "\<forall>(name, cfg) \<in> set catalog_config. \<exists>wb sname df.
          fs (filename cfg) = Workbook wb
          \<and> select_sheet name cfg wb = Inr (Some (sname, df))
          \<and> (\<forall>row \<in> set (rows df).
                product_of_row e name cfg (min (price_col cfg) (int (width df) - 1)) row
                  = Inr None)"
  proof -
    have "load_vendor e n c (fs (filename c)) = Inr None"
      if nc: "(n, c) \<in> set catalog_config" for n c
    proof -
      from h nc obtain wb sname df where "fs (filename c) = Workbook wb"
        and "select_sheet n c wb = Inr (Some (sname, df))"
        and "\<forall>row \<in> set (rows df).
                product_of_row e n c (min (price_col c) (int (width df) - 1)) row = Inr None"
        by blast
      then show ?thesis by (simp add: no_products_load_vendor)
    qed
    then have "\<forall>(n, c) \<in> set catalog_config. load_vendor e n c (fs (filename c)) = Inr None"
      by blast
    then have "?L = \<lparr>catalogs = [], warnings = []\<rparr>"
      unfolding load_paint_catalogs_def by (rule load_loop_nothing)
    then show ?thesis by (simp add: app_def)
  qed
  show ?thesis
    using one all by blast
qed

theorem vendor_without_products_witness:
  "example_blank_fs ''akzo.xlsx'' = Workbook [(''Sheet1'', Inr example_blank_sheet)]
   \<and> select_sheet ''Akzo'' (snd (catalog_config ! 0)) [(''Sheet1'', Inr example_blank_sheet)]
       = Inr (Some (''Sheet1'', example_blank_sheet))
   \<and> map_of (catalogs (load_paint_catalogs example_env example_blank_fs)) ''Akzo'' = None
   \<and> ''Akzo'' \<notin> fst ` set (warnings (load_paint_catalogs example_env example_blank_fs))"
proof -
  let ?cfg = "snd (catalog_config ! 0)"
  let ?wb = "[(''Sheet1'', Inr example_blank_sheet)]"
  have m: "(''Akzo'', ?cfg) \<in> set catalog_config"
    by (simp add: catalog_config_def)
  have w: "example_blank_fs (filename ?cfg) = Workbook ?wb"
    by (simp add: example_blank_fs_def)
  have s: "select_sheet ''Akzo'' ?cfg ?wb = Inr (Some (''Sheet1'', example_blank_sheet))"
    by code_simp
  have r: "\<forall>row \<in> set (rows example_blank_sheet).
             product_of_row example_env ''Akzo'' ?cfg
               (min (price_col ?cfg) (int (width example_blank_sheet) - 1)) row = Inr None"
    by code_simp
  from vendor_without_products_has_no_entry [of example_blank_fs example_env] m w s r
  have "map_of (catalogs (load_paint_catalogs example_env example_blank_fs)) ''Akzo'' = None
        \<and> ''Akzo'' \<notin> fst ` set (warnings (load_paint_catalogs example_env example_blank_fs))"
    by blast
  then show ?thesis
    using s by (simp add: example_blank_fs_def)
qed


section \<open>The page\<close>

subsection \<open>The vendor filter\<close>

lemma app_Found_All:
  assumes "app e cats q b ''All'' = Found n a rs"
  shows "cats \<noteq> [] \<and> q \<noteq> [] \<and> rs = all_results e cats (split (lower q)) \<and> rs \<noteq> []"
proof -
  have c: "cats \<noteq> []"
    using assms by (auto simp: app_def)
  have q: "q \<noteq> []"
    using assms c by (auto simp: app_def split: if_splits)
  from assms show ?thesis
    unfolding app_search [OF c q] using c q
    by (auto simp: filtered_results_def split: if_splits)
qed

lemma length_filter_less_iff:
  "length (filter P xs) < length xs \<longleftrightarrow> (\<exists>x \<in> set xs. \<not> P x)"
proof
  assume "length (filter P xs) < length xs"
  then have "filter P xs \<noteq> xs" by auto
  then show "\<exists>x \<in> set xs. \<not> P x" by (auto simp: filter_id_conv)
next
  assume "\<exists>x \<in> set xs. \<not> P x"
  then show "length (filter P xs) < length xs"
    by (auto intro: length_filter_less)
qed

text \<open>
  C6 says that the rows shown for one vendor are a strict subset of the rows shown for
  "All". In the example only Akzo has a catalog; the query \<open>blue\<close> finds two rows, and
  the filter on Akzo shows the same two rows as the filter on "All".
\<close>

theorem vendor_filter_not_strict_counterexample:
  "app example_env example_catalogs ''blue'' True ''All''
     = Found 2 ''All'' [example_products ! 0, example_products ! 1]
   \<and> app example_env example_catalogs ''blue'' True ''Akzo''
     = Found 2 ''Akzo'' [example_products ! 0, example_products ! 1]"
  by code_simp

text \<open>
  C6, amended. When the page shows results for a query under "All", it shows under a
  single vendor exactly the rows of that result tagged with the vendor, in the same
  order: only rows of that vendor, a subset of the result for "All", and a strict one
  if and only if the result for "All" has a row of another vendor.
\<close>

theorem vendor_filter_keeps_tagged_rows:
  assumes "app e cats q b ''All'' = Found n a rs" and "f \<noteq> ''All''"
  shows "app e cats q b f
           = Found (length (filter (\<lambda>row. Catalog row = f) rs)) f
               (filter (\<lambda>row. Catalog row = f) rs)
       \<and> (\<forall>row \<in> set (filter (\<lambda>row. Catalog row = f) rs). Catalog row = f)
       \<and> set (filter (\<lambda>row. Catalog row = f) rs) \<subseteq> set rs
       \<and> (length (filter (\<lambda>row. Catalog row = f) rs) < length rs
            \<longleftrightarrow> (\<exists>row \<in> set rs. Catalog row \<noteq> f))"
proof -
  from app_Found_All [OF assms(1)]
  have c: "cats \<noteq> []" and q: "q \<noteq> []"
    and rs: "rs = all_results e cats (split (lower q))" and ne: "rs \<noteq> []"
    by blast+
  have "app e cats q b f
           = Found (length (filter (\<lambda>row. Catalog row = f) rs)) f
               (filter (\<lambda>row. Catalog row = f) rs)"
    unfolding app_search [OF c q] using ne rs assms(2)
    by (simp add: filtered_results_def)
  moreover have "length (filter (\<lambda>row. Catalog row = f) rs) < length rs
            \<longleftrightarrow> (\<exists>row \<in> set rs. Catalog row \<noteq> f)"
    by (rule length_filter_less_iff)
  ultimately show ?thesis by auto
qed

theorem vendor_filter_witness:
  "app example_env example_catalogs ''blue'' True ''All''
     = Found 2 ''All'' [example_products ! 0, example_products ! 1]
   \<and> ''PPG'' \<noteq> ''All''
   \<and> app example_env example_catalogs ''blue'' True ''PPG'' = Found 0 ''PPG'' []"
proof -
  let ?rs = "[example_products ! 0, example_products ! 1]"
  have a: "app example_env example_catalogs ''blue'' True ''All'' = Found 2 ''All'' ?rs"
    by code_simp
  have f: "''PPG'' \<noteq> ''All''" by simp
  have e: "filter (\<lambda>row. Catalog row = ''PPG'') ?rs = []"
    by (simp add: example_products_def)
  from vendor_filter_keeps_tagged_rows [OF a f]
  have "app example_env example_catalogs ''blue'' True ''PPG''
          = Found (length (filter (\<lambda>row. Catalog row = ''PPG'') ?rs)) ''PPG''
              (filter (\<lambda>row. Catalog row = ''PPG'') ?rs)"
    by blast
  then show ?thesis using a e by simp
qed

subsection \<open>The empty query\<close>

text \<open>
  C9. When the catalogs are not empty (so that the search form is shown) and the button
  is pressed with an empty query, the page shows the prompt to enter a term: not an
  error, not a warning and not a table, and no result row is computed.
\<close>

theorem empty_query_prompts_for_a_term:
  assumes "cats \<noteq> []"
  shows "app e cats [] True f = EnterTermInfo"
  using assms by (simp add: app_def)

theorem empty_query_witness:
  "example_catalogs \<noteq> []
   \<and> app example_env example_catalogs [] True ''All'' = EnterTermInfo"
proof -
  have c: "example_catalogs \<noteq> []" by (simp add: example_catalogs_def)
  from empty_query_prompts_for_a_term [OF c] c show ?thesis by blast
qed


section \<open>Columns and sheets\<close>

subsection \<open>Column indices\<close>

lemma get_col_in_range:
  assumes "0 \<le> c"
  shows "get_col row c = Inr (if c < int (length row) then Some (row ! nat c) else None)"
  using assms by (simp add: get_col_def iloc_def)

lemma extra_parts_in_range:
  assumes "list_all (\<lambda>c. 0 \<le> c) cs"
  shows "\<exists>parts. extra_parts e row cs = Inr parts"
  using assms
proof (induction cs)
  case Nil
  then show ?case by simp
next
  case (Cons c cs)
  then obtain parts where "extra_parts e row cs = Inr parts" by auto
  moreover from Cons.prems have "0 \<le> c" by simp
  ultimately show ?case by (simp add: iloc_def)
qed

lemma format_price_error:
  assumes "format_price e price = Inl err"
  shows "err = OverflowError"
proof -
  have "err' = OverflowError" if "py_float e v = Inl err'" for v err'
    using that by (cases v) (auto split: option.splits)
  with assms show ?thesis
    by (auto simp: format_price_def split: option.splits if_splits sum.splits)
qed

lemma clamped_index_bounds:
  assumes "0 < width df" and "0 \<le> c"
  shows "0 \<le> clamped_index df c" and "clamped_index df c < int (width df)"
  using assms by (simp_all add: clamped_index_def)

text \<open>
  C7 says that the code, description and price indices are each clamped to the width of
  the sheet. The second sheet of the example workbook for Crown has three columns, and
  it is the sheet the loader takes. The price index 17 is clamped to 2 and reads the last
  cell; the description index 4 is not clamped: the description is \<open>None\<close>, where the
  clamped index would have read the last cell.
\<close>

theorem description_index_not_clamped_counterexample:
  "select_sheet ''Crown'' (snd (catalog_config ! 1)) example_crown_workbook
     = Inr (Some (''Prices'', example_narrow_sheet))
   \<and> read_cells (snd (catalog_config ! 1))
       (min (price_col (snd (catalog_config ! 1))) (int (width example_narrow_sheet) - 1))
       (rows example_narrow_sheet ! 0)
     = Inr (Some (Text ''C1''), None, Some (FloatV 5))
   \<and> iloc (rows example_narrow_sheet ! 0)
       (clamped_index example_narrow_sheet (desc_col (snd (catalog_config ! 1))))
     = Inr (FloatV 5)"
  by code_simp

text \<open>
  C7, amended. Only the price index is clamped, to the last column of the sheet. The
  code and description indices are used as configured, and read only when they are below
  the length of the row; otherwise the value is \<open>None\<close>. So for a row of a sheet with at
  least one column, and indices that are not negative, the three reads stay inside the
  row and raise nothing; and with extra columns that are not negative no read of the row
  raises: the one exception left to a row is the \<open>OverflowError\<close> of \<open>float(price)\<close>.
\<close>

theorem column_reads_stay_in_row:
  assumes "length row = width df" and "0 < width df"
    and "0 \<le> code_col cfg" and "0 \<le> desc_col cfg" and "0 \<le> price_col cfg"
  shows "clamped_index df (price_col cfg) = min (price_col cfg) (int (width df) - 1)
       \<and> nat (clamped_index df (price_col cfg)) < length row
       \<and> read_cells cfg (clamped_index df (price_col cfg)) row
           = Inr (if code_col cfg < int (length row) then Some (row ! nat (code_col cfg)) else None,
                  if desc_col cfg < int (length row) then Some (row ! nat (desc_col cfg)) else None,
                  Some (row ! nat (clamped_index df (price_col cfg))))
       \<and> (list_all (\<lambda>c. 0 \<le> c) (extra_cols cfg) \<longrightarrow>
            (\<forall>err. product_of_row e name cfg (clamped_index df (price_col cfg)) row = Inl err
                   \<longrightarrow> err = OverflowError))"
proof -
  let ?pc = "clamped_index df (price_col cfg)"
  note b = clamped_index_bounds [OF assms(2,5)]
  have lt: "nat ?pc < length row"
    using b assms(1) by simp
  have pr: "get_col row ?pc = Inr (Some (row ! nat ?pc))"
    using b assms(1) by (simp add: get_col_in_range)
  have rd: "read_cells cfg ?pc row
           = Inr (if code_col cfg < int (length row) then Some (row ! nat (code_col cfg)) else None,
                  if desc_col cfg < int (length row) then Some (row ! nat (desc_col cfg)) else None,
                  Some (row ! nat ?pc))"
    unfolding read_cells_def get_col_in_range [OF assms(3)] get_col_in_range [OF assms(4)] pr
    by simp
  have "err = OverflowError"
    if ex: "list_all (\<lambda>c. 0 \<le> c) (extra_cols cfg)"
      and raised: "product_of_row e name cfg ?pc row = Inl err" for err
  proof -
    from extra_parts_in_range [OF ex] obtain parts where
      "extra_parts e row (extra_cols cfg) = Inr parts" by blast
    then obtain desc where "final_desc e cfg row
        (if desc_col cfg < int (length row) then Some (row ! nat (desc_col cfg)) else None)
          = Inr desc"
      by (cases "extra_cols cfg = []") (simp_all add: final_desc_def)
    with raised have "format_price e (Some (row ! nat ?pc)) = Inl err"
      unfolding product_of_row_def rd by (simp split: if_splits sum.splits)
    then show ?thesis by (rule format_price_error)
  qed
  with lt rd show ?thesis
    by (simp add: clamped_index_def)
qed

theorem column_reads_witness:
  "length (rows example_narrow_sheet ! 0) = width example_narrow_sheet
   \<and> 0 < width example_narrow_sheet
   \<and> clamped_index example_narrow_sheet (price_col (snd (catalog_config ! 1))) = 2
   \<and> read_cells (snd (catalog_config ! 1)) 2 (rows example_narrow_sheet ! 0)
       = Inr (Some (Text ''C1''), None, Some (FloatV 5))"
proof -
  let ?cfg = "snd (catalog_config ! 1)"
  let ?row = "rows example_narrow_sheet ! 0"
  have l: "length ?row = width example_narrow_sheet" by code_simp
  have w: "0 < width example_narrow_sheet" by code_simp
  have c: "0 \<le> code_col ?cfg" by code_simp
  have d: "0 \<le> desc_col ?cfg" by code_simp
  have p: "0 \<le> price_col ?cfg" by code_simp
  have k: "clamped_index example_narrow_sheet (price_col ?cfg) = 2" by code_simp
  have v: "(if code_col ?cfg < int (length ?row) then Some (?row ! nat (code_col ?cfg)) else None,
            if desc_col ?cfg < int (length ?row) then Some (?row ! nat (desc_col ?cfg)) else None,
            Some (?row ! nat (clamped_index example_narrow_sheet (price_col ?cfg))))
           = (Some (Text ''C1''), None, Some (FloatV 5))"
    by code_simp
  from column_reads_stay_in_row [OF l w c d p]
  have "read_cells ?cfg (clamped_index example_narrow_sheet (price_col ?cfg)) ?row
          = Inr (if code_col ?cfg < int (length ?row) then Some (?row ! nat (code_col ?cfg)) else None,
                 if desc_col ?cfg < int (length ?row) then Some (?row ! nat (desc_col ?cfg)) else None,
                 Some (?row ! nat (clamped_index example_narrow_sheet (price_col ?cfg))))"
    by blast
  then have "read_cells ?cfg (clamped_index example_narrow_sheet (price_col ?cfg)) ?row
               = Inr (Some (Text ''C1''), None, Some (FloatV 5))"
    unfolding v .
  then have "read_cells ?cfg 2 ?row = Inr (Some (Text ''C1''), None, Some (FloatV 5))"
    by (simp only: k)
  with l w k show ?thesis by blast
qed


subsection \<open>Sheet selection\<close>

lemma first_wide_sheet_find:
  "first_wide_sheet dc (map (\<lambda>(sname, df). (sname, Inr df)) sheets)
     = Inr (find (\<lambda>(sname, df). dc < int (width df)) sheets)"
  by (induction sheets) auto

lemma narrow_row_no_product:
  assumes "int (length row) \<le> desc_col cfg"
    and "\<forall>c \<in> set (extra_cols cfg). desc_col cfg \<le> c"
  shows "product_of_row e name cfg pc row \<noteq> Inr (Some p)"
proof
  assume "product_of_row e name cfg pc row = Inr (Some p)"
  then obtain code desc0 price desc where
    rd: "read_cells cfg pc row = Inr (code, desc0, price)"
    and fd: "final_desc e cfg row desc0 = Inr desc"
    and keep: "keep_desc e desc"
    by (rule product_of_row_SomeD)
  have "get_col row (desc_col cfg) = Inr None"
    using assms(1) by (simp add: get_col_def)
  with read_cells_InrD(2) [OF rd] have d0: "desc0 = None" by simp
  have "extra_parts e row cs = Inr []" if "\<forall>c \<in> set cs. int (length row) \<le> c" for cs
    using that by (induction cs) auto
  moreover have "\<forall>c \<in> set (extra_cols cfg). int (length row) \<le> c"
    using assms by force
  ultimately have "extra_parts e row (extra_cols cfg) = Inr []" by blast
  with fd d0 have "desc = None"
    by (auto simp: final_desc_def with_extras_def split: if_splits)
  with keep show False by (simp add: keep_desc_def)
qed

lemma no_product_no_catalog:
  assumes "\<forall>row \<in> set (rows df). \<forall>p. product_of_row e name cfg pc row \<noteq> Inr (Some p)"
  shows "build_products e name cfg pc (rows df) = Inr ps \<Longrightarrow> ps = []"
proof (rule ccontr)
  assume b: "build_products e name cfg pc (rows df) = Inr ps" and "ps \<noteq> []"
  then obtain p where "p \<in> set ps" by (cases ps) auto
  from build_products_mem [OF b this] assms show False by blast
qed

text \<open>
  C8 says that Crown is loaded from the second sheet of its workbook. A workbook for
  Crown with one sheet only has no second sheet: the test \<open>len(excel_file.sheet_names) > 1\<close>
  fails, the loader falls back to the rule of the other vendors, and Crown's catalog
  comes from the first sheet.
\<close>

theorem crown_single_sheet_counterexample:
  "length [(''Sheet1'', Inr example_sheet) :: string \<times> (string + dataframe)] = 1
   \<and> select_sheet ''Crown'' (snd (catalog_config ! 1)) [(''Sheet1'', Inr example_sheet)]
       = Inr (Some (''Sheet1'', example_sheet))
   \<and> (case workbook_catalog example_env ''Crown'' (snd (catalog_config ! 1))
               [(''Sheet1'', Inr example_sheet)] of
         Inr (Some c) \<Rightarrow> (sheet c, length (data c))
       | _ \<Rightarrow> ([], 0))
       = (''Sheet1'', 3)"
  by code_simp

text \<open>
  C8, amended. Take a workbook whose sheets all read. Crown is loaded from the second
  sheet when the workbook has more than one sheet; Crown with a single sheet, and every
  other vendor, is loaded from the first sheet whose number of columns strictly exceeds
  the configured description index. When no sheet is that wide, a vendor on the second
  rule gets no catalog; and no vendor whose extra columns lie at or beyond its
  description column (as for the three configured) gets a catalog, on either rule.
\<close>

theorem sheet_selection_rule:
  assumes "wb = map (\<lambda>(sname, df). (sname, Inr df)) sheets"
  shows "select_sheet name cfg wb
           = Inr (if name = ''Crown'' \<and> 1 < length sheets then Some (sheets ! 1)
                  else find (\<lambda>(sname, df). desc_col cfg < int (width df)) sheets)
       \<and> ((name \<noteq> ''Crown'' \<or> length sheets \<le> 1)
            \<and> (\<forall>(sname, df) \<in> set sheets. int (width df) \<le> desc_col cfg)
          \<longrightarrow> workbook_catalog e name cfg wb = Inr None)
       \<and> ((\<forall>(sname, df) \<in> set sheets. int (width df) \<le> desc_col cfg \<and> wf_dataframe df)
            \<and> (\<forall>c \<in> set (extra_cols cfg). desc_col cfg \<le> c)
          \<longrightarrow> (\<forall>c. workbook_catalog e name cfg wb \<noteq> Inr (Some c)))"
proof -
  let ?wide = "\<lambda>(sname, df). desc_col cfg < int (width df)"
  have sel: "select_sheet name cfg wb
           = Inr (if name = ''Crown'' \<and> 1 < length sheets then Some (sheets ! 1)
                  else find ?wide sheets)"
  proof (cases "name = ''Crown'' \<and> 1 < length sheets")
    case True
    then have "wb ! 1 = (fst (sheets ! 1), Inr (snd (sheets ! 1)))"
      unfolding assms by (simp add: case_prod_beta)
    with True show ?thesis
      by (simp add: select_sheet_def assms)
  next
    case False
    then show ?thesis
      unfolding select_sheet_def assms using first_wide_sheet_find [of "desc_col cfg" sheets]
      by auto
  qed
  have none: "find ?wide sheets = None"
    if "\<forall>(sname, df) \<in> set sheets. int (width df) \<le> desc_col cfg"
    using that by (auto simp: find_None_iff)
  have a: "workbook_catalog e name cfg wb = Inr None"
    if "name \<noteq> ''Crown'' \<or> length sheets \<le> 1"
      and "\<forall>(sname, df) \<in> set sheets. int (width df) \<le> desc_col cfg"
  proof -
    have "select_sheet name cfg wb = Inr None"
      unfolding sel using that(1) none [OF that(2)] by auto
    then show ?thesis by (simp add: workbook_catalog_def)
  qed
  have b: "workbook_catalog e name cfg wb \<noteq> Inr (Some c)"
    if narrow: "\<forall>(sname, df) \<in> set sheets. int (width df) \<le> desc_col cfg \<and> wf_dataframe df"
      and extra: "\<forall>c \<in> set (extra_cols cfg). desc_col cfg \<le> c"
    for c
  proof
    assume "workbook_catalog e name cfg wb = Inr (Some c)"
    then obtain sname df ps where
      s: "select_sheet name cfg wb = Inr (Some (sname, df))" and "sname \<noteq> []"
      and bp: "build_products e name cfg (min (price_col cfg) (int (width df) - 1)) (rows df)
                 = Inr ps"
      and ne: "ps \<noteq> []" and "data c = dataframe_of ps" and "sheet c = sname"
      by (rule workbook_catalog_SomeD)
    have "find ?wide sheets = None"
      using narrow by (intro none) auto
    with s sel have "name = ''Crown'' \<and> 1 < length sheets" and "sheets ! 1 = (sname, df)"
      by (auto split: if_splits)
    then have "(sname, df) \<in> set sheets"
      by (metis nth_mem)
    with narrow have w: "int (width df) \<le> desc_col cfg" and wf: "wf_dataframe df"
      by auto
    have "\<forall>row \<in> set (rows df). \<forall>p.
            product_of_row e name cfg (min (price_col cfg) (int (width df) - 1)) row
              \<noteq> Inr (Some p)"
    proof (intro ballI allI)
      fix row p
      assume "row \<in> set (rows df)"
      with wf have "length row = width df"
        by (simp add: wf_dataframe_def list_all_iff)
      with w have "int (length row) \<le> desc_col cfg" by simp
      then show "product_of_row e name cfg (min (price_col cfg) (int (width df) - 1)) row
                   \<noteq> Inr (Some p)"
        using extra by (rule narrow_row_no_product)
    qed
    from no_product_no_catalog [OF this bp] ne show False by simp
  qed
  show ?thesis
    using sel a b by blast
qed

theorem sheet_selection_witness:
  "example_crown_workbook
     = map (\<lambda>(sname, df). (sname, Inr df))
         [(''Cover'', \<lparr>width = 1, rows = [[Text ''Crown price list'']]\<rparr>),
          (''Prices'', example_narrow_sheet)]
   \<and> select_sheet ''Crown'' (snd (catalog_config ! 1)) example_crown_workbook
       = Inr (Some (''Prices'', example_narrow_sheet))
   \<and> select_sheet ''PPG'' (snd (catalog_config ! 2)) example_crown_workbook = Inr None
   \<and> workbook_catalog example_env ''PPG'' (snd (catalog_config ! 2)) example_crown_workbook
       = Inr None"
proof -
  let ?sheets = "[(''Cover'', \<lparr>width = 1, rows = [[Text ''Crown price list'']]\<rparr>),
                  (''Prices'', example_narrow_sheet)]"
  have wb: "example_crown_workbook = map (\<lambda>(sname, df). (sname, Inr df)) ?sheets"
    by (simp add: example_crown_workbook_def)
  have n: "\<forall>(sname, df) \<in> set ?sheets. int (width df) \<le> desc_col (snd (catalog_config ! 2))"
    by code_simp
  have f: "find (\<lambda>(sname, df). desc_col (snd (catalog_config ! 2)) < int (width df)) ?sheets = None"
    by code_simp
  note crown = sheet_selection_rule [OF wb, of "''Crown''" "snd (catalog_config ! 1)" example_env]
  note ppg = sheet_selection_rule [OF wb, of "''PPG''" "snd (catalog_config ! 2)" example_env]
  have "select_sheet ''Crown'' (snd (catalog_config ! 1)) example_crown_workbook
       = Inr (Some (''Prices'', example_narrow_sheet))"
    using crown by simp
  moreover have "select_sheet ''PPG'' (snd (catalog_config ! 2)) example_crown_workbook = Inr None"
    using ppg f by simp
  moreover have "workbook_catalog example_env ''PPG'' (snd (catalog_config ! 2))
                   example_crown_workbook = Inr None"
    using ppg n by simp
  ultimately show ?thesis using wb by blast
qed


end
